theory Spec2Isabelle
  imports Complex_Main "HOL-Library.Word"
begin

unbundle bit_operations_syntax

section \<open>The HID bus layer and its USB transport\<close>

text \<open>
  A shallow embedding of \<^verbatim>\<open>hidbus.c\<close> (the bus node that routes interrupt reports
  from a transport to a client driver) and \<^verbatim>\<open>usbhid.c\<close> (the USB transport: the
  interrupt pump, the synchronous report operations, attach and detach).

  Every C function becomes a HOL function of the same name. The softc structures are
  records, C integers of a fixed width are words, pointers that may be passed to
  \<^verbatim>\<open>free\<close> are values of type \<open>addr\<close>, opaque handles (devices, mutexes, function
  pointers) are \<open>nat option\<close> with \<open>None\<close> for the null pointer. What a function does
  to the rest of the kernel is written into an explicit state \<open>kernel\<close>: the blocks
  handed out by \<^verbatim>\<open>malloc\<close>, their contents, the children of the device, and a trace
  of the calls made into the USB stack, newbus and the bound handlers. A call that
  would crash the kernel (a jump through a null function pointer, \<^verbatim>\<open>free\<close> of an
  address that is not an allocated block, a copy that leaves its buffer) is the
  result \<open>None\<close>.
\<close>

subsection \<open>Basic types\<close>

type_synonym byte = "8 word"

text \<open>
  The static arrays of \<^verbatim>\<open>usbhid.c\<close>: the three report descriptors at file scope, and the
  two arrays \<^verbatim>\<open>reportbuf\<close> local to \<^verbatim>\<open>uhid_attach\<close> (of the Graphire3 branch and of
  the Xbox 360 branch).
\<close>

datatype static_data =
    uhid_xb360gp_report_descr
  | uhid_graphire_report_descr
  | uhid_graphire3_4x5_report_descr
  | reportbuf_graphire3_4x5
  | reportbuf_xb360gp

text \<open>
  A data pointer: null, the address of one of the static arrays, or the address of a
  block of the kernel allocator, named by a number.
\<close>

datatype addr = NULL | Static static_data | Heap nat

type_synonym device_t = "nat option"

text \<open>
  \<^verbatim>\<open>hid_intr_t\<close> is the type of an interrupt handler,
  \<^verbatim>\<open>void (void *context, void *buf, uint16_t len)\<close>. A handler is named by a number;
  a pointer to one is \<open>hid_intr_t option\<close>.
\<close>

type_synonym hid_intr_t = nat

text \<open>
  \<^verbatim>\<open>usb_error_t\<close>, the enumeration of the USB stack. Its first enumerator, with
  value zero, is \<^verbatim>\<open>USB_ERR_NORMAL_COMPLETION\<close>, so the C test \<^verbatim>\<open>if (err)\<close> is
  \<open>err \<noteq> USB_ERR_NORMAL_COMPLETION\<close>.
\<close>

datatype usb_error_t =
    USB_ERR_NORMAL_COMPLETION
  | USB_ERR_PENDING_REQUESTS
  | USB_ERR_NOT_STARTED
  | USB_ERR_INVAL
  | USB_ERR_NOMEM
  | USB_ERR_CANCELLED
  | USB_ERR_BAD_ADDRESS
  | USB_ERR_BAD_BUFSIZE
  | USB_ERR_BAD_FLAG
  | USB_ERR_NO_CALLBACK
  | USB_ERR_IN_USE
  | USB_ERR_NO_ADDR
  | USB_ERR_NO_PIPE
  | USB_ERR_ZERO_NFRAMES
  | USB_ERR_ZERO_MAXP
  | USB_ERR_SET_ADDR_FAILED
  | USB_ERR_NO_POWER
  | USB_ERR_TOO_DEEP
  | USB_ERR_IOERROR
  | USB_ERR_NOT_CONFIGURED
  | USB_ERR_TIMEOUT
  | USB_ERR_SHORT_XFER
  | USB_ERR_STALLED
  | USB_ERR_INTERRUPTED
  | USB_ERR_DMA_LOAD_FAILED
  | USB_ERR_BAD_CONTEXT
  | USB_ERR_NO_ROOT_HUB
  | USB_ERR_NO_INTR_THREAD
  | USB_ERR_NOT_LOCKED

text \<open>The values of \<^verbatim>\<open>errno.h\<close> that the two files return.\<close>

definition ENXIO :: int where "ENXIO = 6"
definition ENOMEM :: int where "ENOMEM = 12"
definition ENOTSUP :: int where "ENOTSUP = 45"

text \<open>The kinds of a report in \<^verbatim>\<open>hid_report_size\<close>.\<close>

datatype hid_kind = hid_input | hid_output | hid_feature

subsection \<open>The kernel around the drivers\<close>

text \<open>
  The requests that \<^verbatim>\<open>usbhid.c\<close> sends through the \<^verbatim>\<open>usbd_req_*\<close> functions of the
  USB stack, with the arguments of the call (the mutex argument is \<^verbatim>\<open>NULL\<close> at every
  call and left out). Each argument has the type of the parameter that receives it:
  the USB stack declares
  \<^verbatim>\<open>usbd_req_set_idle(struct usb_device *udev, struct mtx *mtx, uint8_t iface_index,
  uint8_t duration, uint8_t id)\<close>, so the duration of a set-idle request is a byte.
\<close>

datatype usb_request =
    Req_get_report device_t addr "16 word" "8 word" "8 word" "8 word"
  | Req_set_report device_t addr "16 word" "8 word" "8 word" "8 word"
  | Req_set_idle device_t "8 word" "8 word" "8 word"
  | Req_set_protocol device_t "8 word" "16 word"
  | Req_get_hid_desc device_t "8 word"

text \<open>
  The calls that leave the two files, in the order in which they are made. \<open>DPRINTF\<close>
  and \<open>Device_printf\<close> carry the format string of the message. \<open>DPRINTF\<close> is the
  debug macro of the USB stack: the event is the call, and whether the stack prints it
  depends on its debug level (\<^verbatim>\<open>uhid_debug\<close>), which lies outside the model.
\<close>

datatype event =
    DPRINTF string
  | Device_printf string
  | Usbd_req usb_request
  | Malloc addr nat
  | Free addr
  | Usbd_copy_out nat addr nat
  | Intr_call hid_intr_t "nat option" addr "16 word" "byte list"
  | Usbd_xfer_set_frame_len nat "32 word"
  | Usbd_transfer_submit
  | Usbd_xfer_set_stall
  | Usbd_transfer_setup
  | Usbd_transfer_unsetup
  | Usbd_transfer_start
  | Usbd_transfer_stop
  | Device_add_child string device_t
  | Device_delete_child nat
  | Device_set_ivars nat
  | Bus_generic_attach
  | Bus_generic_detach

record kernel =
  k_live :: "nat list"
  k_mem :: "nat \<Rightarrow> byte list"
  k_children :: "nat list"
  k_attached :: bool
  k_trace :: "event list"

definition emit :: "event \<Rightarrow> kernel \<Rightarrow> kernel" where
  "emit e k = k\<lparr>k_trace := k_trace k @ [e]\<rparr>"

text \<open>
  The allocator. \<^verbatim>\<open>malloc(size, M_USBDEV, M_ZERO | M_WAITOK)\<close> always returns a
  block, zeroed, at an address that is not in use. \<^verbatim>\<open>free\<close> of the null pointer
  does nothing; \<^verbatim>\<open>free\<close> of an allocated block releases it; \<^verbatim>\<open>free\<close> of anything
  else (a static array, a block that is not allocated) is a crash.
\<close>

fun fresh :: "nat list \<Rightarrow> nat" where
  "fresh [] = 0"
| "fresh (a # as) = max (Suc a) (fresh as)"

definition malloc :: "nat \<Rightarrow> kernel \<Rightarrow> addr \<times> kernel" where
  "malloc n k =
     (let a = fresh (k_live k)
      in (Heap a,
          emit (Malloc (Heap a) n)
            (k\<lparr>k_live := a # k_live k, k_mem := (k_mem k)(a := replicate n 0)\<rparr>)))"

definition free :: "addr \<Rightarrow> kernel \<Rightarrow> kernel option" where
  "free p k =
     (case p of
        NULL \<Rightarrow> Some (emit (Free NULL) k)
      | Static s \<Rightarrow> None
      | Heap a \<Rightarrow>
          if a \<in> set (k_live k)
          then Some (emit (Free (Heap a)) (k\<lparr>k_live := removeAll a (k_live k)\<rparr>))
          else None)"

subsection \<open>hidbus.c\<close>

record hidbus_softc =
  dev :: device_t
  lock :: "nat option"
  child :: device_t
  intr :: "hid_intr_t option"

text \<open>
  \<^verbatim>\<open>hid_set_intr(child, intr)\<close> looks up the softc of the parent of \<open>child\<close> and
  stores both arguments. It returns nothing.
\<close>

definition hid_set_intr :: "device_t \<Rightarrow> hid_intr_t option \<Rightarrow> hidbus_softc \<Rightarrow> hidbus_softc" where
  "hid_set_intr child' intr' sc = sc\<lparr>child := child', intr := intr'\<rparr>"

text \<open>
  \<^verbatim>\<open>hidbus_intr(context, buf, len)\<close> calls \<^verbatim>\<open>sc->intr(sc->child, buf, len)\<close>. The
  call through a null \<^verbatim>\<open>sc->intr\<close> is a crash. The last component of \<open>Intr_call\<close>
  are the \<open>len\<close> bytes of the buffer that the handler is given.
\<close>

definition call_intr ::
  "hid_intr_t option \<Rightarrow> nat option \<Rightarrow> addr \<Rightarrow> 16 word \<Rightarrow> kernel \<Rightarrow> kernel option" where
  "call_intr f context buf len k =
     (case f of
        None \<Rightarrow> None
      | Some h \<Rightarrow>
          Some (emit (Intr_call h context buf len
                  (case buf of Heap a \<Rightarrow> take (unat len) (k_mem k a) | _ \<Rightarrow> [])) k))"

definition hidbus_intr :: "hidbus_softc \<Rightarrow> addr \<Rightarrow> 16 word \<Rightarrow> kernel \<Rightarrow> kernel option" where
  "hidbus_intr sc buf len k = call_intr (intr sc) (child sc) buf len k"

text \<open>
  A client driver binds handlers one after the other: the bus node after a list of
  \<^verbatim>\<open>hid_set_intr\<close> calls.
\<close>

fun hid_set_intr_all :: "(device_t \<times> hid_intr_t option) list \<Rightarrow> hidbus_softc \<Rightarrow> hidbus_softc" where
  "hid_set_intr_all [] sc = sc"
| "hid_set_intr_all ((c, f) # bs) sc = hid_set_intr_all bs (hid_set_intr c f sc)"

subsection \<open>usbhid.c: the softc\<close>

definition UHID_BSIZE :: "32 word" where "UHID_BSIZE = 1024"

definition UHID_FLAG_IMMED :: "8 word" where "UHID_FLAG_IMMED = 0x01"
definition UHID_FLAG_STATIC_DESC :: "8 word" where "UHID_FLAG_STATIC_DESC = 0x04"

text \<open>
  \<^verbatim>\<open>struct hid_device_info\<close> of \<^verbatim>\<open>hidbus.h\<close>, with the fields that \<^verbatim>\<open>uhid_attach\<close>
  fills.
\<close>

record hid_device_info =
  parent :: device_t
  name :: string
  serial :: string
  idBus :: "16 word"
  idVendor :: "16 word"
  idProduct :: "16 word"
  idVersion :: "16 word"

text \<open>
  \<^verbatim>\<open>struct uhid_softc\<close>. The array \<^verbatim>\<open>sc_xfer\<close> has the single element
  \<^verbatim>\<open>sc_xfer[UHID_INTR_DT_RD]\<close>.
\<close>

record uhid_softc =
  sc_child :: device_t
  sc_intr_handler :: "hid_intr_t option"
  sc_intr_context :: "nat option"
  sc_intr_mtx :: "nat option"
  sc_hw :: hid_device_info
  sc_xfer :: "nat option"
  sc_udev :: device_t
  sc_repdesc_ptr :: addr
  sc_ibuf :: addr
  sc_isize :: "32 word"
  sc_osize :: "32 word"
  sc_fsize :: "32 word"
  sc_repdesc_size :: "16 word"
  sc_iface_no :: "8 word"
  sc_iface_index :: "8 word"
  sc_iid :: "8 word"
  sc_oid :: "8 word"
  sc_fid :: "8 word"
  sc_flags :: "8 word"

text \<open>The softc as newbus hands it to \<^verbatim>\<open>uhid_attach\<close>: zeroed memory.\<close>

definition hid_device_info_zero :: hid_device_info where
  "hid_device_info_zero =
     \<lparr>parent = None, name = [], serial = [], idBus = 0, idVendor = 0, idProduct = 0,
      idVersion = 0\<rparr>"

definition uhid_softc_zero :: uhid_softc where
  "uhid_softc_zero =
     \<lparr>sc_child = None, sc_intr_handler = None, sc_intr_context = None, sc_intr_mtx = None,
      sc_hw = hid_device_info_zero, sc_xfer = None, sc_udev = None,
      sc_repdesc_ptr = NULL, sc_ibuf = NULL, sc_isize = 0, sc_osize = 0, sc_fsize = 0,
      sc_repdesc_size = 0, sc_iface_no = 0, sc_iface_index = 0, sc_iid = 0, sc_oid = 0,
      sc_fid = 0, sc_flags = 0\<rparr>"

definition hidbus_softc_zero :: hidbus_softc where
  "hidbus_softc_zero = \<lparr>dev = None, lock = None, child = None, intr = None\<rparr>"

text \<open>
  What the code takes from outside the two files, as a parameter of the model: the
  outcome of each request to the USB stack, the descriptor size that
  \<^verbatim>\<open>usbd_req_get_hid_desc\<close> reports, the function \<^verbatim>\<open>hid_report_size\<close> of \<^verbatim>\<open>hid.h\<close>
  (it returns the size and stores the report id), the results of newbus, the strings
  of the device, and the \<^verbatim>\<open>sizeof\<close> of the static descriptors and of the two string
  fields.
\<close>

record environ =
  usbd_req :: "usb_request \<Rightarrow> usb_error_t"
  usbd_transfer_setup_result :: usb_error_t
  hid_desc_size :: "16 word"
  hid_report_size :: "addr \<Rightarrow> 16 word \<Rightarrow> hid_kind \<Rightarrow> 32 word \<times> 8 word"
  device_add_child_result :: device_t
  bus_generic_attach_result :: int
  device_get_desc :: string
  usb_get_serial :: string
  sizeof_static :: "static_data \<Rightarrow> 16 word"
  sizeof_name :: nat
  sizeof_serial :: nat

subsection \<open>usbhid.c: the interrupt pump\<close>

datatype usb_state = USB_ST_SETUP | USB_ST_TRANSFERRED | USB_ST_ERROR

text \<open>
  The transfer as the callback reads it: the state of \<^verbatim>\<open>USB_GET_STATE\<close>, the actual
  length that \<^verbatim>\<open>usbd_xfer_status\<close> stores in the \<^verbatim>\<open>int actlen\<close>, and the bytes of
  the page cache of frame 0.
\<close>

record usb_xfer =
  xfer_state :: usb_state
  xfer_actlen :: "32 word"
  xfer_frame0 :: "byte list"

text \<open>
  \<^verbatim>\<open>usbd_copy_out(pc, offset, ptr, len)\<close> copies \<open>len\<close> bytes of the page cache,
  from \<open>offset\<close> on, to \<open>ptr\<close>. A copy of no byte touches nothing. A copy that reads
  beyond the page cache, or writes elsewhere than into an allocated block, is a crash.
\<close>

definition usbd_copy_out :: "byte list \<Rightarrow> nat \<Rightarrow> addr \<Rightarrow> nat \<Rightarrow> kernel \<Rightarrow> kernel option" where
  "usbd_copy_out pc offset p len k =
     (if len = 0 then Some (emit (Usbd_copy_out offset p len) k)
      else case p of
        Heap a \<Rightarrow>
          if a \<in> set (k_live k) \<and> len \<le> length (k_mem k a) \<and> offset + len \<le> length pc
          then Some (emit (Usbd_copy_out offset p len)
                 (k\<lparr>k_mem := (k_mem k)(a := take len (drop offset pc) @ drop len (k_mem k a))\<rparr>))
          else None
      | _ \<Rightarrow> None)"

text \<open>The label \<^verbatim>\<open>re_submit\<close>: set the length of frame 0 and submit the transfer.\<close>

definition re_submit :: "uhid_softc \<Rightarrow> kernel \<Rightarrow> kernel" where
  "re_submit sc k = emit Usbd_transfer_submit (emit (Usbd_xfer_set_frame_len 0 (sc_isize sc)) k)"

text \<open>
  \<^verbatim>\<open>uhid_intr_read_callback\<close>. The \<^verbatim>\<open>int actlen\<close> and the cast \<^verbatim>\<open>(int)sc->sc_isize\<close>
  are 32-bit words compared as signed numbers (\<open>sint\<close>). The length argument of
  \<^verbatim>\<open>usbd_copy_out\<close> is unsigned, the length argument of the handler is a
  \<^verbatim>\<open>uint16_t\<close>. The case \<^verbatim>\<open>USB_ST_TRANSFERRED\<close> falls through to \<^verbatim>\<open>USB_ST_SETUP\<close>.
  The debug messages are written without their final newline.
\<close>

definition uhid_intr_read_callback ::
  "uhid_softc \<Rightarrow> usb_xfer \<Rightarrow> usb_error_t \<Rightarrow> kernel \<Rightarrow> kernel option" where
  "uhid_intr_read_callback sc xfer error k =
     (let actlen = xfer_actlen xfer
      in case xfer_state xfer of
        USB_ST_TRANSFERRED \<Rightarrow>
          (let k1 = emit (DPRINTF ''transferred!'') k;
               pc = xfer_frame0 xfer
           in case
                (if sint (sc_isize sc) \<le> sint actlen \<or> (0 < sint actlen \<and> sc_iid sc \<noteq> 0)
                 then
                   (let actlen' = (if sint (sc_isize sc) < sint actlen then sc_isize sc else actlen)
                    in case usbd_copy_out pc 0 (sc_ibuf sc) (unat actlen') k1 of
                         None \<Rightarrow> None
                       | Some k2 \<Rightarrow>
                           call_intr (sc_intr_handler sc) (sc_intr_context sc) (sc_ibuf sc)
                             (ucast actlen') k2)
                 else Some (emit (DPRINTF ''ignored transfer, %d bytes'') k1))
              of None \<Rightarrow> None
               | Some k3 \<Rightarrow> Some (re_submit sc k3))
      | USB_ST_SETUP \<Rightarrow> Some (re_submit sc k)
      | USB_ST_ERROR \<Rightarrow>
          if error \<noteq> USB_ERR_CANCELLED
          then Some (re_submit sc (emit Usbd_xfer_set_stall k))
          else Some k)"

subsection \<open>usbhid.c: interrupt setup and the HID interface\<close>

text \<open>
  \<^verbatim>\<open>usbhid_intr_setup\<close> stores the handler, its context and the mutex, and calls
  \<^verbatim>\<open>usbd_transfer_setup\<close>, which fills \<^verbatim>\<open>sc_xfer\<close> when it succeeds; the outcome is
  only printed. \<^verbatim>\<open>usbhid_intr_start\<close> and \<^verbatim>\<open>usbhid_intr_stop\<close> first assert with
  \<^verbatim>\<open>mtx_assert\<close> that the caller holds the mutex; the mutex is not part of this
  model, the callers are taken to hold it.
\<close>

definition usbhid_intr_setup ::
  "environ \<Rightarrow> uhid_softc \<Rightarrow> nat option \<Rightarrow> hid_intr_t option \<Rightarrow> nat option \<Rightarrow> kernel
     \<Rightarrow> uhid_softc \<times> kernel" where
  "usbhid_intr_setup env sc mtx intr' context k =
     (let sc1 = sc\<lparr>sc_intr_handler := intr', sc_intr_context := context, sc_intr_mtx := mtx\<rparr>;
          error = usbd_transfer_setup_result env;
          k1 = emit Usbd_transfer_setup k
      in if error \<noteq> USB_ERR_NORMAL_COMPLETION
         then (sc1, emit (DPRINTF ''error=%s'') k1)
         else (sc1\<lparr>sc_xfer := Some 0\<rparr>, k1))"

definition usbhid_intr_unsetup :: "uhid_softc \<Rightarrow> kernel \<Rightarrow> uhid_softc \<times> kernel" where
  "usbhid_intr_unsetup sc k = (sc\<lparr>sc_xfer := None\<rparr>, emit Usbd_transfer_unsetup k)"

definition usbhid_intr_start :: "uhid_softc \<Rightarrow> kernel \<Rightarrow> int \<times> kernel" where
  "usbhid_intr_start sc k = (0, emit Usbd_transfer_start k)"

definition usbhid_intr_stop :: "uhid_softc \<Rightarrow> kernel \<Rightarrow> int \<times> kernel" where
  "usbhid_intr_stop sc k = (0, emit Usbd_transfer_stop k)"

definition usbhid_get_report_desc :: "uhid_softc \<Rightarrow> int \<times> addr \<times> 16 word" where
  "usbhid_get_report_desc sc = (0, sc_repdesc_ptr sc, sc_repdesc_size sc)"

definition usbhid_get_input_report :: "uhid_softc \<Rightarrow> addr \<Rightarrow> 16 word \<Rightarrow> kernel \<Rightarrow> int \<times> kernel" where
  "usbhid_get_input_report sc buf len k = (ENOTSUP, k)"

definition usbhid_set_output_report :: "uhid_softc \<Rightarrow> addr \<Rightarrow> 16 word \<Rightarrow> kernel \<Rightarrow> int \<times> kernel" where
  "usbhid_set_output_report sc buf len k = (ENOTSUP, k)"

text \<open>
  The four operations that send a request: the \<^verbatim>\<open>usb_error_t\<close> of the request is
  stored in \<^verbatim>\<open>int err\<close>, replaced by \<^verbatim>\<open>ENXIO\<close> when it is not zero, and returned.
\<close>

definition usbhid_get_report ::
  "environ \<Rightarrow> uhid_softc \<Rightarrow> addr \<Rightarrow> 16 word \<Rightarrow> 8 word \<Rightarrow> 8 word \<Rightarrow> kernel \<Rightarrow> int \<times> kernel" where
  "usbhid_get_report env sc buf len type id' k =
     (let r = Req_get_report (sc_udev sc) buf len (sc_iface_index sc) type id';
          err = usbd_req env r
      in (if err \<noteq> USB_ERR_NORMAL_COMPLETION then ENXIO else 0, emit (Usbd_req r) k))"

definition usbhid_set_report ::
  "environ \<Rightarrow> uhid_softc \<Rightarrow> addr \<Rightarrow> 16 word \<Rightarrow> 8 word \<Rightarrow> 8 word \<Rightarrow> kernel \<Rightarrow> int \<times> kernel" where
  "usbhid_set_report env sc buf len type id' k =
     (let r = Req_set_report (sc_udev sc) buf len (sc_iface_index sc) type id';
          err = usbd_req env r
      in (if err \<noteq> USB_ERR_NORMAL_COMPLETION then ENXIO else 0, emit (Usbd_req r) k))"

text \<open>
  In \<^verbatim>\<open>(duration + 3) / 4\<close> the \<^verbatim>\<open>uint16_t duration\<close> is promoted to \<^verbatim>\<open>int\<close>, so
  the sum and the quotient are those of the integers. The call then converts the
  \<^verbatim>\<open>int\<close> to the \<^verbatim>\<open>uint8_t duration\<close> parameter of \<^verbatim>\<open>usbd_req_set_idle\<close>, which keeps
  its low 8 bits (\<open>word_of_int\<close>).
\<close>

definition usbhid_set_idle ::
  "environ \<Rightarrow> uhid_softc \<Rightarrow> 16 word \<Rightarrow> 8 word \<Rightarrow> kernel \<Rightarrow> int \<times> kernel" where
  "usbhid_set_idle env sc duration id' k =
     (let r = Req_set_idle (sc_udev sc) (sc_iface_index sc)
                (word_of_int ((uint duration + 3) div 4)) id';
          err = usbd_req env r
      in (if err \<noteq> USB_ERR_NORMAL_COMPLETION then ENXIO else 0, emit (Usbd_req r) k))"

definition usbhid_set_protocol ::
  "environ \<Rightarrow> uhid_softc \<Rightarrow> 16 word \<Rightarrow> kernel \<Rightarrow> int \<times> kernel" where
  "usbhid_set_protocol env sc protocol k =
     (let r = Req_set_protocol (sc_udev sc) (sc_iface_index sc) protocol;
          err = usbd_req env r
      in (if err \<noteq> USB_ERR_NORMAL_COMPLETION then ENXIO else 0, emit (Usbd_req r) k))"

subsection \<open>usbhid.c: attach and detach\<close>

text \<open>
  The fields of \<^verbatim>\<open>struct usb_attach_arg\<close> that \<^verbatim>\<open>uhid_attach\<close> reads:
  \<^verbatim>\<open>uaa->device\<close> and the members of \<^verbatim>\<open>uaa->info\<close>.
\<close>

record usb_attach_arg =
  uaa_device :: device_t
  uaa_idVendor :: "16 word"
  uaa_idProduct :: "16 word"
  uaa_bInterfaceClass :: "8 word"
  uaa_bInterfaceSubClass :: "8 word"
  uaa_bInterfaceProtocol :: "8 word"
  uaa_bIfaceNum :: "8 word"
  uaa_bIfaceIndex :: "8 word"

text \<open>
  Constants of the system headers (\<^verbatim>\<open>usbdevs.h\<close>, \<^verbatim>\<open>usb.h\<close>, \<^verbatim>\<open>usbhid.h\<close>,
  \<^verbatim>\<open>input.h\<close>). No theorem below depends on their values.
\<close>

definition USB_VENDOR_WACOM :: "16 word" where "USB_VENDOR_WACOM = 0x056a"
definition USB_PRODUCT_WACOM_GRAPHIRE :: "16 word" where "USB_PRODUCT_WACOM_GRAPHIRE = 0x0010"
definition USB_PRODUCT_WACOM_GRAPHIRE3_4X5 :: "16 word" where
  "USB_PRODUCT_WACOM_GRAPHIRE3_4X5 = 0x0013"
definition UICLASS_VENDOR :: "8 word" where "UICLASS_VENDOR = 0xff"
definition UISUBCLASS_XBOX360_CONTROLLER :: "8 word" where "UISUBCLASS_XBOX360_CONTROLLER = 0x5d"
definition UIPROTO_XBOX360_GAMEPAD :: "8 word" where "UIPROTO_XBOX360_GAMEPAD = 0x01"
definition UHID_OUTPUT_REPORT :: "8 word" where "UHID_OUTPUT_REPORT = 0x02"
definition UHID_FEATURE_REPORT :: "8 word" where "UHID_FEATURE_REPORT = 0x03"
definition BUS_USB :: "16 word" where "BUS_USB = 0x03"

definition device_add_child :: "string \<Rightarrow> device_t \<Rightarrow> kernel \<Rightarrow> kernel" where
  "device_add_child nm res k =
     emit (Device_add_child nm res)
       (case res of None \<Rightarrow> k | Some c \<Rightarrow> k\<lparr>k_children := k_children k @ [c]\<rparr>)"

definition device_delete_child :: "nat \<Rightarrow> kernel \<Rightarrow> kernel" where
  "device_delete_child c k =
     emit (Device_delete_child c) (k\<lparr>k_children := removeAll c (k_children k)\<rparr>)"

definition strlcpy :: "string \<Rightarrow> nat \<Rightarrow> string" where
  "strlcpy src n = take (n - 1) src"

text \<open>
  \<^verbatim>\<open>uhid_detach\<close>. \<open>k_attached\<close> is what \<^verbatim>\<open>device_is_attached(dev)\<close> returns.
\<close>

definition uhid_detach :: "uhid_softc \<Rightarrow> kernel \<Rightarrow> (int \<times> kernel) option" where
  "uhid_detach sc k =
     (let k1 = (if k_attached k then emit Bus_generic_detach k else k);
          k2 = (case sc_child sc of None \<Rightarrow> k1 | Some c \<Rightarrow> device_delete_child c k1)
      in case
           (if sc_repdesc_ptr sc \<noteq> NULL
            then (if sc_flags sc AND UHID_FLAG_STATIC_DESC = 0
                  then free (sc_repdesc_ptr sc) k2
                  else Some k2)
            else Some k2)
         of None \<Rightarrow> None
          | Some k3 \<Rightarrow>
              (case free (sc_ibuf sc) k3 of
                 None \<Rightarrow> None
               | Some k4 \<Rightarrow> Some (0, k4)))"

text \<open>
  \<^verbatim>\<open>usbd_req_get_hid_desc(udev, NULL, &sc->sc_repdesc_ptr, &sc->sc_repdesc_size,
  M_USBDEV, iface_index)\<close> of the USB stack: when the request succeeds it stores a
  freshly allocated block and its size, when it fails it leaves the pointer null.
\<close>

definition usbd_req_get_hid_desc ::
  "environ \<Rightarrow> device_t \<Rightarrow> 8 word \<Rightarrow> uhid_softc \<Rightarrow> kernel \<Rightarrow> usb_error_t \<times> uhid_softc \<times> kernel" where
  "usbd_req_get_hid_desc env udev iface_index sc k =
     (let r = Req_get_hid_desc udev iface_index;
          err = usbd_req env r;
          k1 = emit (Usbd_req r) k
      in if err \<noteq> USB_ERR_NORMAL_COMPLETION then (err, sc, k1)
         else (let (p, k2) = malloc (unat (hid_desc_size env)) k1
               in (err, sc\<lparr>sc_repdesc_ptr := p, sc_repdesc_size := hid_desc_size env\<rparr>, k2)))"

text \<open>
  \<^verbatim>\<open>uhid_attach\<close>, lines 593 to 643: the devices whose report descriptor is a
  static array.
\<close>

definition uhid_attach_quirks ::
  "environ \<Rightarrow> usb_attach_arg \<Rightarrow> uhid_softc \<Rightarrow> kernel \<Rightarrow> uhid_softc \<times> kernel" where
  "uhid_attach_quirks env uaa sc k =
     (if uaa_idVendor uaa = USB_VENDOR_WACOM then
        (if uaa_idProduct uaa = USB_PRODUCT_WACOM_GRAPHIRE then
           (sc\<lparr>sc_repdesc_size := sizeof_static env uhid_graphire_report_descr,
               sc_repdesc_ptr := Static uhid_graphire_report_descr,
               sc_flags := sc_flags sc OR UHID_FLAG_STATIC_DESC\<rparr>, k)
         else if uaa_idProduct uaa = USB_PRODUCT_WACOM_GRAPHIRE3_4X5 then
           (let r = Req_set_report (uaa_device uaa) (Static reportbuf_graphire3_4x5)
                      3 (uaa_bIfaceIndex uaa)
                      UHID_FEATURE_REPORT 2;
                k1 = emit (Usbd_req r) k;
                k2 = (if usbd_req env r \<noteq> USB_ERR_NORMAL_COMPLETION
                      then emit (DPRINTF ''set report failed, error=%s (ignored)'') k1
                      else k1)
            in (sc\<lparr>sc_repdesc_size := sizeof_static env uhid_graphire3_4x5_report_descr,
                   sc_repdesc_ptr := Static uhid_graphire3_4x5_report_descr,
                   sc_flags := sc_flags sc OR UHID_FLAG_STATIC_DESC\<rparr>, k2))
         else (sc, k))
      else if uaa_bInterfaceClass uaa = UICLASS_VENDOR
              \<and> uaa_bInterfaceSubClass uaa = UISUBCLASS_XBOX360_CONTROLLER
              \<and> uaa_bInterfaceProtocol uaa = UIPROTO_XBOX360_GAMEPAD then
        (let r = Req_set_report (uaa_device uaa) (Static reportbuf_xb360gp)
                   3 (uaa_bIfaceIndex uaa)
                   UHID_OUTPUT_REPORT 0;
             k1 = emit (Usbd_req r) k;
             k2 = (if usbd_req env r \<noteq> USB_ERR_NORMAL_COMPLETION
                   then emit (DPRINTF ''set output report failed, error=%s (ignored)'') k1
                   else k1)
         in (sc\<lparr>sc_repdesc_size := sizeof_static env uhid_xb360gp_report_descr,
                sc_repdesc_ptr := Static uhid_xb360gp_report_descr,
                sc_flags := sc_flags sc OR UHID_FLAG_STATIC_DESC\<rparr>, k2))
      else (sc, k))"

text \<open>
  \<^verbatim>\<open>uhid_attach\<close>, lines 662 to 688: the three report sizes and ids, and the three
  limits. \<^verbatim>\<open>sc->sc_isize > UHID_BSIZE\<close> compares a \<^verbatim>\<open>uint32_t\<close> with an \<^verbatim>\<open>int\<close>
  constant, so it is the unsigned comparison.
\<close>

definition uhid_attach_sizes :: "environ \<Rightarrow> uhid_softc \<Rightarrow> kernel \<Rightarrow> uhid_softc \<times> kernel" where
  "uhid_attach_sizes env sc k =
     (let (isize, iid) = hid_report_size env (sc_repdesc_ptr sc) (sc_repdesc_size sc) hid_input;
          (osize, oid) = hid_report_size env (sc_repdesc_ptr sc) (sc_repdesc_size sc) hid_output;
          (fsize, fid) = hid_report_size env (sc_repdesc_ptr sc) (sc_repdesc_size sc) hid_feature;
          sc1 = sc\<lparr>sc_isize := isize, sc_iid := iid, sc_osize := osize, sc_oid := oid,
                   sc_fsize := fsize, sc_fid := fid\<rparr>;
          (sc2, k2) =
            (if UHID_BSIZE < sc_isize sc1
             then (sc1\<lparr>sc_isize := UHID_BSIZE\<rparr>,
                   emit (DPRINTF ''input size is too large, %d bytes (truncating)'') k)
             else (sc1, k));
          (sc3, k3) =
            (if UHID_BSIZE < sc_osize sc2
             then (sc2\<lparr>sc_osize := UHID_BSIZE\<rparr>,
                   emit (DPRINTF ''output size is too large, %d bytes (truncating)'') k2)
             else (sc2, k2))
      in if UHID_BSIZE < sc_fsize sc3
         then (sc3\<lparr>sc_fsize := UHID_BSIZE\<rparr>,
               emit (DPRINTF ''feature size is too large, %d bytes (truncating)'') k3)
         else (sc3, k3))"

text \<open>\<^verbatim>\<open>uhid_attach\<close>, lines 691 to 698: the device information for the bus node.\<close>

definition uhid_attach_hw :: "environ \<Rightarrow> device_t \<Rightarrow> usb_attach_arg \<Rightarrow> uhid_softc \<Rightarrow> uhid_softc" where
  "uhid_attach_hw env d uaa sc =
     sc\<lparr>sc_hw :=
          \<lparr>parent = d,
           name = strlcpy (device_get_desc env) (sizeof_name env),
           serial = strlcpy (usb_get_serial env) (sizeof_serial env),
           idBus = BUS_USB,
           idVendor = uaa_idVendor uaa,
           idProduct = uaa_idProduct uaa,
           idVersion = 0\<rparr>\<rparr>"

text \<open>The label \<^verbatim>\<open>detach\<close> of \<^verbatim>\<open>uhid_attach\<close>: call \<^verbatim>\<open>uhid_detach\<close>, return \<^verbatim>\<open>ENOMEM\<close>.\<close>

definition uhid_attach_fail ::
  "uhid_softc \<Rightarrow> kernel \<Rightarrow> ((int \<times> uhid_softc) \<times> kernel) option" where
  "uhid_attach_fail sc k =
     (case uhid_detach sc k of
        None \<Rightarrow> None
      | Some (r, k') \<Rightarrow> Some ((ENOMEM, sc), k'))"

text \<open>
  \<^verbatim>\<open>uhid_attach\<close>, lines 655 to 712, what follows once the report descriptor is
  there: the set-idle request, the sizes, the input buffer, the child.
\<close>

definition uhid_attach_finish ::
  "environ \<Rightarrow> device_t \<Rightarrow> usb_attach_arg \<Rightarrow> uhid_softc \<Rightarrow> kernel
     \<Rightarrow> ((int \<times> uhid_softc) \<times> kernel) option" where
  "uhid_attach_finish env d uaa sc3 k3 =
     (let r = Req_set_idle (uaa_device uaa) (uaa_bIfaceIndex uaa) 0 0;
          k4 = emit (Usbd_req r) k3;
          k5 = (if usbd_req env r \<noteq> USB_ERR_NORMAL_COMPLETION
                then emit (DPRINTF ''set idle failed, error=%s (ignored)'') k4
                else k4);
          (sc6, k6) = uhid_attach_sizes env sc3 k5;
          (p, k7) = malloc (unat (sc_isize sc6)) k6;
          sc7 = uhid_attach_hw env d uaa (sc6\<lparr>sc_ibuf := p\<rparr>);
          sc8 = sc7\<lparr>sc_child := device_add_child_result env\<rparr>;
          k8 = device_add_child ''hidbus'' (device_add_child_result env) k7
      in case sc_child sc8 of
           None \<Rightarrow>
             uhid_attach_fail sc8 (emit (Device_printf ''Could not add hidbus device'') k8)
         | Some c \<Rightarrow>
             (let k9 = emit Bus_generic_attach (emit (Device_set_ivars c) k8);
                  k10 = (if bus_generic_attach_result env \<noteq> 0
                         then emit (Device_printf ''failed to attach child: %d'') k9
                         else k9)
              in Some ((0, sc8), k10)))"

text \<open>
  \<^verbatim>\<open>uhid_attach(dev)\<close>. The result is the return value, the softc and the kernel.
\<close>

definition uhid_attach ::
  "environ \<Rightarrow> device_t \<Rightarrow> usb_attach_arg \<Rightarrow> uhid_softc \<Rightarrow> kernel
     \<Rightarrow> ((int \<times> uhid_softc) \<times> kernel) option" where
  "uhid_attach env d uaa sc k =
     (let sc1 = sc\<lparr>sc_udev := uaa_device uaa, sc_iface_no := uaa_bIfaceNum uaa,
                   sc_iface_index := uaa_bIfaceIndex uaa\<rparr>;
          (sc2, k2) = uhid_attach_quirks env uaa sc1 k;
          (error, sc3, k3) =
            (if sc_repdesc_ptr sc2 = NULL
             then usbd_req_get_hid_desc env (uaa_device uaa) (uaa_bIfaceIndex uaa) sc2 k2
             else (USB_ERR_NORMAL_COMPLETION, sc2, k2))
      in if sc_repdesc_ptr sc2 = NULL \<and> error \<noteq> USB_ERR_NORMAL_COMPLETION
         then uhid_attach_fail sc3 (emit (Device_printf ''no report descriptor'') k3)
         else uhid_attach_finish env d uaa sc3 k3)"

subsection \<open>usbhid.c: the device after attach\<close>

text \<open>
  The entry points of the method table of \<^verbatim>\<open>usbhid.c\<close> that run between attach and
  detach, and the completion of the interrupt transfer. Each call comes with what the
  outside answers to it.
\<close>

datatype uhid_call =
    Intr_setup environ "nat option" "hid_intr_t option" "nat option"
  | Intr_unsetup
  | Intr_start
  | Intr_stop
  | Intr_read_callback usb_xfer usb_error_t
  | Get_report_desc
  | Get_input_report addr "16 word"
  | Set_output_report addr "16 word"
  | Get_report environ addr "16 word" "8 word" "8 word"
  | Set_report environ addr "16 word" "8 word" "8 word"
  | Set_idle environ "16 word" "8 word"
  | Set_protocol environ "16 word"

fun uhid_step :: "uhid_call \<Rightarrow> uhid_softc \<times> kernel \<Rightarrow> (uhid_softc \<times> kernel) option" where
  "uhid_step (Intr_setup env mtx f context) (sc, k) = Some (usbhid_intr_setup env sc mtx f context k)"
| "uhid_step Intr_unsetup (sc, k) = Some (usbhid_intr_unsetup sc k)"
| "uhid_step Intr_start (sc, k) = Some (sc, snd (usbhid_intr_start sc k))"
| "uhid_step Intr_stop (sc, k) = Some (sc, snd (usbhid_intr_stop sc k))"
| "uhid_step (Intr_read_callback xfer error) (sc, k) =
     (case uhid_intr_read_callback sc xfer error k of None \<Rightarrow> None | Some k' \<Rightarrow> Some (sc, k'))"
| "uhid_step Get_report_desc (sc, k) = Some (sc, k)"
| "uhid_step (Get_input_report buf len) (sc, k) = Some (sc, snd (usbhid_get_input_report sc buf len k))"
| "uhid_step (Set_output_report buf len) (sc, k) = Some (sc, snd (usbhid_set_output_report sc buf len k))"
| "uhid_step (Get_report env buf len type id') (sc, k) =
     Some (sc, snd (usbhid_get_report env sc buf len type id' k))"
| "uhid_step (Set_report env buf len type id') (sc, k) =
     Some (sc, snd (usbhid_set_report env sc buf len type id' k))"
| "uhid_step (Set_idle env duration id') (sc, k) = Some (sc, snd (usbhid_set_idle env sc duration id' k))"
| "uhid_step (Set_protocol env protocol) (sc, k) = Some (sc, snd (usbhid_set_protocol env sc protocol k))"

fun uhid_run :: "uhid_call list \<Rightarrow> uhid_softc \<times> kernel \<Rightarrow> (uhid_softc \<times> kernel) option" where
  "uhid_run [] s = Some s"
| "uhid_run (c # cs) s = (case uhid_step c s of None \<Rightarrow> None | Some s' \<Rightarrow> uhid_run cs s')"

subsection \<open>Observing a run\<close>

text \<open>
  The calls of a bound handler made between two states of the kernel, read off the
  trace.
\<close>

definition is_intr_call :: "event \<Rightarrow> bool" where
  "is_intr_call e = (case e of Intr_call h c b l d \<Rightarrow> True | _ \<Rightarrow> False)"

definition delivered :: "kernel \<Rightarrow> kernel \<Rightarrow> event list" where
  "delivered k k' = filter is_intr_call (drop (length (k_trace k)) (k_trace k'))"

text \<open>
  The state in which the interrupt transfer runs: attach has limited the input size
  to \<open>UHID_BSIZE\<close> and allocated \<^verbatim>\<open>sc_ibuf\<close> with that many bytes,
  \<^verbatim>\<open>usbhid_intr_setup\<close> has stored a handler, and the frame buffer of the transfer has
  the \<^verbatim>\<open>.bufsize = UHID_BSIZE\<close> bytes of \<^verbatim>\<open>uhid_config\<close>.
\<close>

definition pump_ready :: "uhid_softc \<Rightarrow> usb_xfer \<Rightarrow> kernel \<Rightarrow> bool" where
  "pump_ready sc xfer k =
     (sc_isize sc \<le> UHID_BSIZE \<and> sc_intr_handler sc \<noteq> None
      \<and> length (xfer_frame0 xfer) = unat UHID_BSIZE
      \<and> (case sc_ibuf sc of
            Heap a \<Rightarrow> a \<in> set (k_live k) \<and> length (k_mem k a) = unat (sc_isize sc)
          | _ \<Rightarrow> False))"

text \<open>
  The value of \<^verbatim>\<open>actlen\<close> after the statement
  \<^verbatim>\<open>if (actlen > (int)sc->sc_isize) actlen = sc->sc_isize;\<close>
\<close>

definition accepted_len32 :: "uhid_softc \<Rightarrow> usb_xfer \<Rightarrow> 32 word" where
  "accepted_len32 sc xfer =
     (if sint (sc_isize sc) < sint (xfer_actlen xfer) then sc_isize sc else xfer_actlen xfer)"

text \<open>
  The devices for which \<^verbatim>\<open>uhid_attach\<close> binds a static report descriptor: the two
  Wacom tablets, and the Xbox 360 gamepad when the vendor is not Wacom.
\<close>

definition uhid_static_device :: "usb_attach_arg \<Rightarrow> bool" where
  "uhid_static_device uaa =
     (if uaa_idVendor uaa = USB_VENDOR_WACOM
      then uaa_idProduct uaa = USB_PRODUCT_WACOM_GRAPHIRE
           \<or> uaa_idProduct uaa = USB_PRODUCT_WACOM_GRAPHIRE3_4X5
      else uaa_bInterfaceClass uaa = UICLASS_VENDOR
           \<and> uaa_bInterfaceSubClass uaa = UISUBCLASS_XBOX360_CONTROLLER
           \<and> uaa_bInterfaceProtocol uaa = UIPROTO_XBOX360_GAMEPAD)"

text \<open>
  The blocks of the allocator that a softc holds: the report descriptor when it is
  not flagged static, and the input buffer. \<open>softc_owns\<close> says that these blocks are
  allocated and are two different blocks, and that no static array is in a place
  where \<^verbatim>\<open>uhid_detach\<close> would free it.
\<close>

definition owned :: "uhid_softc \<Rightarrow> nat list" where
  "owned sc =
     (case sc_repdesc_ptr sc of
        Heap a \<Rightarrow> if sc_flags sc AND UHID_FLAG_STATIC_DESC = 0 then [a] else []
      | _ \<Rightarrow> [])
     @ (case sc_ibuf sc of Heap b \<Rightarrow> [b] | _ \<Rightarrow> [])"

definition softc_owns :: "uhid_softc \<Rightarrow> kernel \<Rightarrow> bool" where
  "softc_owns sc k =
     (set (owned sc) \<subseteq> set (k_live k) \<and> distinct (owned sc)
      \<and> (case sc_repdesc_ptr sc of
            Static s \<Rightarrow> sc_flags sc AND UHID_FLAG_STATIC_DESC \<noteq> 0
          | _ \<Rightarrow> True)
      \<and> (case sc_ibuf sc of Static s \<Rightarrow> False | _ \<Rightarrow> True))"

text \<open>The calls of \<^verbatim>\<open>free\<close> and of \<^verbatim>\<open>device_delete_child\<close> in a trace.\<close>

definition is_free :: "event \<Rightarrow> bool" where
  "is_free e = (case e of Free p \<Rightarrow> True | _ \<Rightarrow> False)"

text \<open>
  What a run adds to the trace, and the debug messages of the three size limits of
  \<^verbatim>\<open>uhid_attach\<close>: \<open>truncation_log\<close> lists the messages for the sizes that
  \<^verbatim>\<open>hid_report_size\<close> computes above \<open>UHID_BSIZE\<close>.
\<close>

definition new_events :: "kernel \<Rightarrow> kernel \<Rightarrow> event list" where
  "new_events k k' = drop (length (k_trace k)) (k_trace k')"

definition truncation_log :: "environ \<Rightarrow> uhid_softc \<Rightarrow> event list" where
  "truncation_log env sc =
     (if UHID_BSIZE < fst (hid_report_size env (sc_repdesc_ptr sc) (sc_repdesc_size sc) hid_input)
      then [DPRINTF ''input size is too large, %d bytes (truncating)''] else [])
     @ (if UHID_BSIZE < fst (hid_report_size env (sc_repdesc_ptr sc) (sc_repdesc_size sc) hid_output)
        then [DPRINTF ''output size is too large, %d bytes (truncating)''] else [])
     @ (if UHID_BSIZE < fst (hid_report_size env (sc_repdesc_ptr sc) (sc_repdesc_size sc) hid_feature)
        then [DPRINTF ''feature size is too large, %d bytes (truncating)''] else [])"

definition is_truncation_msg :: "event \<Rightarrow> bool" where
  "is_truncation_msg e =
     (e = DPRINTF ''input size is too large, %d bytes (truncating)''
      \<or> e = DPRINTF ''output size is too large, %d bytes (truncating)''
      \<or> e = DPRINTF ''feature size is too large, %d bytes (truncating)'')"

text \<open>
  The softc after the first three assignments of \<^verbatim>\<open>uhid_attach\<close>, starting from
  the zeroed softc.
\<close>

definition attach_sc1 :: "usb_attach_arg \<Rightarrow> uhid_softc" where
  "attach_sc1 uaa = uhid_softc_zero\<lparr>sc_udev := uaa_device uaa, sc_iface_no := uaa_bIfaceNum uaa,
                   sc_iface_index := uaa_bIfaceIndex uaa\<rparr>"

text \<open>
  When \<^verbatim>\<open>uhid_attach\<close> returns 0: a report descriptor is there (static, or the
  request for it succeeds) and newbus creates the child. The sizes play no part.
\<close>

definition uhid_attach_succeeds :: "environ \<Rightarrow> usb_attach_arg \<Rightarrow> bool" where
  "uhid_attach_succeeds env uaa =
     ((uhid_static_device uaa
       \<or> usbd_req env (Req_get_hid_desc (uaa_device uaa) (uaa_bIfaceIndex uaa)) = USB_ERR_NORMAL_COMPLETION)
      \<and> device_add_child_result env \<noteq> None)"

text \<open>
  The part of the softc and of the kernel that no entry point between attach and
  detach writes: the three sizes, the descriptor pointer, its size and the flags, the
  input buffer pointer, the child, and the allocator and the children of the device.
\<close>

definition durable ::
  "uhid_softc \<times> kernel \<Rightarrow>
     (32 word \<times> 32 word \<times> 32 word) \<times> (addr \<times> 16 word \<times> 8 word \<times> addr \<times> device_t)
       \<times> (nat list \<times> nat list \<times> bool)" where
  "durable s =
     (case s of (sc, k) \<Rightarrow>
        ((sc_isize sc, sc_osize sc, sc_fsize sc),
         (sc_repdesc_ptr sc, sc_repdesc_size sc, sc_flags sc, sc_ibuf sc, sc_child sc),
         (k_live k, k_children k, k_attached k)))"

subsection \<open>Example states\<close>

text \<open>
  Concrete states on which the theorems below are instantiated: an empty kernel; a
  device with an input report of 8 bytes, its buffer allocated and a handler stored; a
  transfer whose frame holds eight bytes \<open>1\<close> followed by a filler byte; an outside
  world that answers every request with the same outcome.
\<close>

definition kernel0 :: kernel where
  "kernel0 = \<lparr>k_live = [], k_mem = (\<lambda>a. []), k_children = [], k_attached = False, k_trace = []\<rparr>"

definition example_sc :: "8 word \<Rightarrow> uhid_softc" where
  "example_sc iid =
     uhid_softc_zero\<lparr>sc_isize := 8, sc_iid := iid, sc_ibuf := Heap 0, sc_intr_handler := Some 7\<rparr>"

definition example_kernel :: kernel where
  "example_kernel =
     \<lparr>k_live = [0], k_mem = (\<lambda>a. replicate 8 0), k_children = [1], k_attached = True,
      k_trace = []\<rparr>"

definition example_xfer :: "usb_state \<Rightarrow> 32 word \<Rightarrow> byte \<Rightarrow> usb_xfer" where
  "example_xfer st n b = \<lparr>xfer_state = st, xfer_actlen = n, xfer_frame0 = replicate 8 1 @ replicate 1016 b\<rparr>"

definition example_env :: "usb_error_t \<Rightarrow> device_t \<Rightarrow> environ" where
  "example_env err res =
     \<lparr>usbd_req = (\<lambda>r. err),
      usbd_transfer_setup_result = USB_ERR_NORMAL_COMPLETION,
      hid_desc_size = 52,
      hid_report_size =
        (\<lambda>p n kind. case kind of hid_input \<Rightarrow> (8, 0) | hid_output \<Rightarrow> (2000, 1) | hid_feature \<Rightarrow> (0, 0)),
      device_add_child_result = res,
      bus_generic_attach_result = 0,
      device_get_desc = ''USB HID'',
      usb_get_serial = ''0001'',
      sizeof_static = (\<lambda>d. 100),
      sizeof_name = 80,
      sizeof_serial = 80\<rparr>"

text \<open>
  A device that is not one of the static ones, the softc and the kernel after its
  attach on the empty kernel (with an output size of 2000 reported by
  \<^verbatim>\<open>hid_report_size\<close>), and a softc as a failed attach may leave it: a descriptor
  allocated, no input buffer, no child.
\<close>

definition example_uaa :: "16 word \<Rightarrow> 16 word \<Rightarrow> usb_attach_arg" where
  "example_uaa vendor product =
     \<lparr>uaa_device = Some 5, uaa_idVendor = vendor, uaa_idProduct = product,
      uaa_bInterfaceClass = 3, uaa_bInterfaceSubClass = 0, uaa_bInterfaceProtocol = 0,
      uaa_bIfaceNum = 0, uaa_bIfaceIndex = 0\<rparr>"

definition example_attached_sc :: uhid_softc where
  "example_attached_sc =
     \<lparr>sc_child = Some 1, sc_intr_handler = None, sc_intr_context = None, sc_intr_mtx = None,
      sc_hw = \<lparr>parent = None, name = ''USB HID'', serial = ''0001'', idBus = 3,
               idVendor = 0x046d, idProduct = 0xc21d, idVersion = 0\<rparr>,
      sc_xfer = None, sc_udev = Some 5, sc_repdesc_ptr = Heap 0, sc_ibuf = Heap 1,
      sc_isize = 8, sc_osize = 1024, sc_fsize = 0, sc_repdesc_size = 52, sc_iface_no = 0,
      sc_iface_index = 0, sc_iid = 0, sc_oid = 1, sc_fid = 0, sc_flags = 0\<rparr>"

definition example_attached_kernel :: kernel where
  "example_attached_kernel =
     \<lparr>k_live = [1, 0],
      k_mem = (\<lambda>a. [])(0 := replicate 52 0, 1 := replicate 8 0),
      k_children = [1], k_attached = False,
      k_trace =
        [Usbd_req (Req_get_hid_desc (Some 5) 0), Malloc (Heap 0) 52,
         Usbd_req (Req_set_idle (Some 5) 0 0 0),
         DPRINTF ''output size is too large, %d bytes (truncating)'',
         Malloc (Heap 1) 8, Device_add_child ''hidbus'' (Some 1),
         Device_set_ivars 1, Bus_generic_attach]\<rparr>"

definition example_partial_sc :: uhid_softc where
  "example_partial_sc = uhid_softc_zero\<lparr>sc_repdesc_ptr := Heap 0, sc_repdesc_size := 52\<rparr>"

definition example_partial_kernel :: kernel where
  "example_partial_kernel = kernel0\<lparr>k_live := [0], k_mem := (\<lambda>a. replicate 52 0)\<rparr>"

section \<open>Properties\<close>

subsection \<open>Words\<close>

lemma sint_nonneg_uint:
  fixes x :: "32 word"
  assumes "0 \<le> sint x"
  shows "uint x = sint x"
proof -
  have "sint x < 2 ^ 32" using sint_lt [of x] by simp
  then have "take_bit 32 (sint x) = sint x"
    using assms by (simp add: take_bit_int_eq_self)
  then show ?thesis using uint_sint [of x] by simp
qed

lemma small_sint:
  fixes x :: "32 word"
  assumes "x \<le> 1024"
  shows "sint x = uint x" and "uint x \<le> 1024"
proof -
  show le: "uint x \<le> 1024" using assms by (simp add: word_le_def)
  have "- (2 ^ 31) \<le> uint x" by (rule order_trans [of _ 0]) simp_all
  moreover have "uint x < 2 ^ 31" using le by simp
  ultimately have "signed_take_bit 31 (uint x) = uint x"
    by (rule signed_take_bit_int_eq_self)
  then show "sint x = uint x" by (simp add: sint_uint)
qed

lemma accepted_len:
  fixes isize L :: "32 word"
  assumes "isize \<le> 1024"
    and "uint isize \<le> sint L \<or> 0 < sint L"
  shows "unat (if sint isize < sint L then isize else L) = min (nat (sint L)) (unat isize)"
proof -
  have s: "sint isize = uint isize" using assms(1) by (rule small_sint)
  have "0 \<le> uint isize" by simp
  then have nn: "0 \<le> sint L" using assms(2) by linarith
  have u: "uint L = sint L" using nn by (rule sint_nonneg_uint)
  have a: "int (unat isize) = uint isize" and b: "int (unat L) = uint L"
    by (simp_all only: uint_nat)
  show ?thesis
  proof (cases "sint isize < sint L")
    case True
    then have "unat isize \<le> nat (sint L)" using a s by linarith
    then show ?thesis using True by (simp add: min_def)
  next
    case False
    then have "unat L \<le> unat isize" and "unat L = nat (sint L)" using a b s u by linarith+
    then show ?thesis using False by (simp add: min_def)
  qed
qed


lemma ucast_len:
  fixes w :: "32 word"
  assumes "unat w \<le> 1024"
  shows "unat (ucast w :: 16 word) = unat w"
proof -
  have "unat (ucast w :: 16 word) = take_bit LENGTH(16) (unat w)"
    by (rule unsigned_ucast_eq)
  also have "\<dots> = unat w" using assms by (simp add: take_bit_nat_eq_self)
  finally show ?thesis .
qed

lemma small_unat:
  fixes x :: "32 word"
  assumes "uint x \<le> 1024"
  shows "unat x \<le> 1024"
proof -
  have "int (unat x) = uint x" by (rule uint_nat [symmetric])
  then show ?thesis using assms by linarith
qed

subsection \<open>The interrupt pump\<close>

lemma callback_unfold:
  assumes "xfer_state xfer = USB_ST_TRANSFERRED"
  shows "uhid_intr_read_callback sc xfer error k =
     (case
        (if sint (sc_isize sc) \<le> sint (xfer_actlen xfer) \<or> (0 < sint (xfer_actlen xfer) \<and> sc_iid sc \<noteq> 0)
         then (case usbd_copy_out (xfer_frame0 xfer) 0 (sc_ibuf sc) (unat (accepted_len32 sc xfer))
                      (emit (DPRINTF ''transferred!'') k) of
                 None \<Rightarrow> None
               | Some k2 \<Rightarrow>
                   call_intr (sc_intr_handler sc) (sc_intr_context sc) (sc_ibuf sc)
                     (ucast (accepted_len32 sc xfer)) k2)
         else Some (emit (DPRINTF ''ignored transfer, %d bytes'') (emit (DPRINTF ''transferred!'') k)))
      of None \<Rightarrow> None
       | Some k3 \<Rightarrow> Some (re_submit sc k3))"
  unfolding uhid_intr_read_callback_def accepted_len32_def Let_def
  by (simp only: assms usb_state.case)

lemma callback_transferred:
  assumes ready: "pump_ready sc xfer k"
    and st: "xfer_state xfer = USB_ST_TRANSFERRED"
    and h: "sc_intr_handler sc = Some h"
    and a: "sc_ibuf sc = Heap a"
  shows "uhid_intr_read_callback sc xfer error k =
     Some (if uint (sc_isize sc) \<le> sint (xfer_actlen xfer) \<or> (0 < sint (xfer_actlen xfer) \<and> sc_iid sc \<noteq> 0)
       then k\<lparr>k_mem := (k_mem k)(a := take (min (nat (sint (xfer_actlen xfer))) (unat (sc_isize sc))) (xfer_frame0 xfer)
                            @ drop (min (nat (sint (xfer_actlen xfer))) (unat (sc_isize sc))) (k_mem k a)),
              k_trace := k_trace k @
                [DPRINTF ''transferred!'',
                 Usbd_copy_out 0 (Heap a) (min (nat (sint (xfer_actlen xfer))) (unat (sc_isize sc))),
                 Intr_call h (sc_intr_context sc) (Heap a) (ucast (accepted_len32 sc xfer))
                   (take (min (nat (sint (xfer_actlen xfer))) (unat (sc_isize sc))) (xfer_frame0 xfer)),
                 Usbd_xfer_set_frame_len 0 (sc_isize sc), Usbd_transfer_submit]\<rparr>
       else k\<lparr>k_trace := k_trace k @
                [DPRINTF ''transferred!'', DPRINTF ''ignored transfer, %d bytes'',
                 Usbd_xfer_set_frame_len 0 (sc_isize sc), Usbd_transfer_submit]\<rparr>)"
    (is "_ = Some (if ?cond then ?acc else ?rej)")
proof -
  let ?L = "xfer_actlen xfer"
  let ?n = "min (nat (sint ?L)) (unat (sc_isize sc))"
  have isz: "sc_isize sc \<le> 1024" using ready by (simp add: pump_ready_def UHID_BSIZE_def)
  have s: "sint (sc_isize sc) = uint (sc_isize sc)" and ule: "uint (sc_isize sc) \<le> 1024"
    using small_sint [OF isz] by simp_all
  have live: "a \<in> set (k_live k)" and len: "length (k_mem k a) = unat (sc_isize sc)"
    and flen: "length (xfer_frame0 xfer) = 1024"
    using ready a by (simp_all add: pump_ready_def UHID_BSIZE_def)
  have ub: "unat (sc_isize sc) \<le> 1024" using ule by (rule small_unat)
  note unf = callback_unfold [OF st, of sc error k]
  show ?thesis
  proof (cases ?cond)
    case False
    then have nc: "\<not> (sint (sc_isize sc) \<le> sint ?L \<or> (0 < sint ?L \<and> sc_iid sc \<noteq> 0))"
      unfolding s .
    have "uhid_intr_read_callback sc xfer error k = Some ?rej"
      unfolding unf by (simp only: nc if_False) (simp add: re_submit_def emit_def)
    then show ?thesis by (simp only: False if_False)
  next
    case True
    then have tc: "sint (sc_isize sc) \<le> sint ?L \<or> (0 < sint ?L \<and> sc_iid sc \<noteq> 0)"
      unfolding s .
    from True have c': "uint (sc_isize sc) \<le> sint ?L \<or> 0 < sint ?L" by blast
    have n: "unat (accepted_len32 sc xfer) = ?n"
      unfolding accepted_len32_def using isz c' by (rule accepted_len)
    have nle: "?n \<le> unat (sc_isize sc)" by simp
    have n16: "unat (ucast (accepted_len32 sc xfer) :: 16 word) = ?n"
      using ucast_len [of "accepted_len32 sc xfer"] n nle ub by simp
    have copy: "usbd_copy_out (xfer_frame0 xfer) 0 (Heap a) ?n (emit (DPRINTF ''transferred!'') k) =
       Some (k\<lparr>k_mem := (k_mem k)(a := take ?n (xfer_frame0 xfer) @ drop ?n (k_mem k a)),
               k_trace := k_trace k @ [DPRINTF ''transferred!'', Usbd_copy_out 0 (Heap a) ?n]\<rparr>)"
    proof (cases "?n = 0")
      case True
      then show ?thesis by (simp add: usbd_copy_out_def emit_def)
    next
      case False
      have "?n \<le> length (k_mem k a)" "?n \<le> length (xfer_frame0 xfer)"
        using nle len flen ub by simp_all
      then show ?thesis using False live
        by (simp add: usbd_copy_out_def emit_def)
    qed
    have m: "min (length (xfer_frame0 xfer)) ?n = ?n"
      using nle flen ub by simp
    have "uhid_intr_read_callback sc xfer error k = Some ?acc"
      unfolding unf by (simp only: tc if_True n a h copy) (simp add: call_intr_def re_submit_def emit_def n16 m)
    then show ?thesis by (simp only: True if_True)
  qed
qed

subsection \<open>Attach and detach: the pieces\<close>

lemma filter_truncation_log: "filter is_truncation_msg (truncation_log env sc) = truncation_log env sc"
  by (simp add: truncation_log_def is_truncation_msg_def)

lemma fresh_gt: "a \<in> set as \<Longrightarrow> a < fresh as"
  by (induction as) auto

lemma fresh_notin: "fresh as \<notin> set as"
  using fresh_gt [of "fresh as" as] by auto

lemma static_flag_or: "(x OR UHID_FLAG_STATIC_DESC) AND UHID_FLAG_STATIC_DESC \<noteq> 0"
proof -
  have "bit ((x OR UHID_FLAG_STATIC_DESC) AND UHID_FLAG_STATIC_DESC) 2"
    by (simp add: UHID_FLAG_STATIC_DESC_def bit_and_iff bit_or_iff)
  then show ?thesis by auto
qed

lemma uhid_detach_owns:
  assumes "softc_owns sc k"
  shows "\<exists>k'. uhid_detach sc k = Some (0, k')
    \<and> set (k_live k') = set (k_live k) - set (owned sc)
    \<and> k_children k' = (case sc_child sc of None \<Rightarrow> k_children k | Some c \<Rightarrow> removeAll c (k_children k))
    \<and> k_mem k' = k_mem k \<and> k_attached k' = k_attached k
    \<and> k_trace k' = k_trace k
         @ (if k_attached k then [Bus_generic_detach] else [])
         @ (case sc_child sc of None \<Rightarrow> [] | Some c \<Rightarrow> [Device_delete_child c])
         @ (if sc_repdesc_ptr sc \<noteq> NULL \<and> sc_flags sc AND UHID_FLAG_STATIC_DESC = 0
            then [Free (sc_repdesc_ptr sc)] else [])
         @ [Free (sc_ibuf sc)]"
proof (cases "sc_repdesc_ptr sc")
  case NULL
  then show ?thesis using assms
    by (cases "sc_ibuf sc")
       (auto simp: uhid_detach_def softc_owns_def owned_def free_def emit_def
          device_delete_child_def Let_def split: option.splits)
next
  case (Static s)
  then show ?thesis using assms
    by (cases "sc_ibuf sc")
       (auto simp: uhid_detach_def softc_owns_def owned_def free_def emit_def
          device_delete_child_def Let_def split: option.splits)
next
  case (Heap a)
  then show ?thesis using assms
    by (cases "sc_ibuf sc"; cases "sc_flags sc AND UHID_FLAG_STATIC_DESC = 0")
       (auto simp: uhid_detach_def softc_owns_def owned_def free_def emit_def
          device_delete_child_def Let_def split: option.splits)
qed

lemma uhid_attach_sizes_fields:
  "sc_isize (fst (uhid_attach_sizes env sc k)) =
      min (fst (hid_report_size env (sc_repdesc_ptr sc) (sc_repdesc_size sc) hid_input)) UHID_BSIZE"
  "sc_osize (fst (uhid_attach_sizes env sc k)) =
      min (fst (hid_report_size env (sc_repdesc_ptr sc) (sc_repdesc_size sc) hid_output)) UHID_BSIZE"
  "sc_fsize (fst (uhid_attach_sizes env sc k)) =
      min (fst (hid_report_size env (sc_repdesc_ptr sc) (sc_repdesc_size sc) hid_feature)) UHID_BSIZE"
  "sc_repdesc_ptr (fst (uhid_attach_sizes env sc k)) = sc_repdesc_ptr sc"
  "sc_repdesc_size (fst (uhid_attach_sizes env sc k)) = sc_repdesc_size sc"
  "sc_flags (fst (uhid_attach_sizes env sc k)) = sc_flags sc"
  "sc_ibuf (fst (uhid_attach_sizes env sc k)) = sc_ibuf sc"
  "sc_child (fst (uhid_attach_sizes env sc k)) = sc_child sc"
  by (auto simp add: uhid_attach_sizes_def min_def Let_def split: prod.splits)

lemma uhid_attach_sizes_kernel:
  "snd (uhid_attach_sizes env sc k) =
     k\<lparr>k_trace := k_trace k
        @ (if UHID_BSIZE < fst (hid_report_size env (sc_repdesc_ptr sc) (sc_repdesc_size sc) hid_input)
           then [DPRINTF ''input size is too large, %d bytes (truncating)''] else [])
        @ (if UHID_BSIZE < fst (hid_report_size env (sc_repdesc_ptr sc) (sc_repdesc_size sc) hid_output)
           then [DPRINTF ''output size is too large, %d bytes (truncating)''] else [])
        @ (if UHID_BSIZE < fst (hid_report_size env (sc_repdesc_ptr sc) (sc_repdesc_size sc) hid_feature)
           then [DPRINTF ''feature size is too large, %d bytes (truncating)''] else [])\<rparr>"
  by (simp add: uhid_attach_sizes_def Let_def emit_def split: prod.splits)

lemma uhid_attach_sizes_trace:
  "k_trace (snd (uhid_attach_sizes env sc k)) = k_trace k @ truncation_log env sc"
  by (simp add: uhid_attach_sizes_kernel truncation_log_def)

lemma uhid_attach_quirks_trace:
  "\<exists>es. k_trace (snd (uhid_attach_quirks env uaa sc k)) = k_trace k @ es
      \<and> filter is_truncation_msg es = []"
  by (simp add: uhid_attach_quirks_def Let_def emit_def is_truncation_msg_def)

lemma uhid_attach_quirks_static:
  assumes "uhid_static_device uaa" and "sc_flags sc = 0"
  shows "\<exists>s. sc_repdesc_ptr (fst (uhid_attach_quirks env uaa sc k)) = Static s"
    and "sc_flags (fst (uhid_attach_quirks env uaa sc k)) AND UHID_FLAG_STATIC_DESC \<noteq> 0"
    and "sc_ibuf (fst (uhid_attach_quirks env uaa sc k)) = sc_ibuf sc"
    and "sc_child (fst (uhid_attach_quirks env uaa sc k)) = sc_child sc"
    and "k_live (snd (uhid_attach_quirks env uaa sc k)) = k_live k"
    and "k_children (snd (uhid_attach_quirks env uaa sc k)) = k_children k"
  using assms static_flag_or [of 0]
  by (auto simp: uhid_attach_quirks_def uhid_static_device_def Let_def emit_def split: if_splits)

lemma uhid_attach_quirks_dynamic:
  assumes "\<not> uhid_static_device uaa"
  shows "uhid_attach_quirks env uaa sc k = (sc, k)"
  using assms by (auto simp: uhid_attach_quirks_def uhid_static_device_def)

lemma uhid_attach_fail_owns:
  assumes "softc_owns sc k"
  shows "\<exists>k'. uhid_attach_fail sc k = Some ((ENOMEM, sc), k')
     \<and> set (k_live k') = set (k_live k) - set (owned sc)
     \<and> k_children k' = (case sc_child sc of None \<Rightarrow> k_children k | Some c \<Rightarrow> removeAll c (k_children k))"
  using uhid_detach_owns [OF assms] by (auto simp: uhid_attach_fail_def)

lemma uhid_attach_hw_fields:
  "sc_isize (uhid_attach_hw env d uaa sc) = sc_isize sc"
  "sc_osize (uhid_attach_hw env d uaa sc) = sc_osize sc"
  "sc_fsize (uhid_attach_hw env d uaa sc) = sc_fsize sc"
  "sc_repdesc_ptr (uhid_attach_hw env d uaa sc) = sc_repdesc_ptr sc"
  "sc_repdesc_size (uhid_attach_hw env d uaa sc) = sc_repdesc_size sc"
  "sc_flags (uhid_attach_hw env d uaa sc) = sc_flags sc"
  "sc_ibuf (uhid_attach_hw env d uaa sc) = sc_ibuf sc"
  "sc_child (uhid_attach_hw env d uaa sc) = sc_child sc"
  by (simp_all add: uhid_attach_hw_def)

lemma uhid_attach_finish_result:
  assumes own: "softc_owns sc3 k3" and nb: "sc_ibuf sc3 = NULL"
  shows "\<exists>sc' k'. uhid_attach_finish env d uaa sc3 k3 =
            Some ((if device_add_child_result env = None then ENOMEM else 0, sc'), k')
      \<and> sc_isize sc' = min (fst (hid_report_size env (sc_repdesc_ptr sc3) (sc_repdesc_size sc3) hid_input)) UHID_BSIZE
      \<and> sc_osize sc' = min (fst (hid_report_size env (sc_repdesc_ptr sc3) (sc_repdesc_size sc3) hid_output)) UHID_BSIZE
      \<and> sc_fsize sc' = min (fst (hid_report_size env (sc_repdesc_ptr sc3) (sc_repdesc_size sc3) hid_feature)) UHID_BSIZE
      \<and> sc_repdesc_ptr sc' = sc_repdesc_ptr sc3 \<and> sc_flags sc' = sc_flags sc3
      \<and> sc_repdesc_size sc' = sc_repdesc_size sc3
      \<and> sc_ibuf sc' = Heap (fresh (k_live k3)) \<and> sc_child sc' = device_add_child_result env
      \<and> (device_add_child_result env \<noteq> None \<longrightarrow>
            k_live k' = fresh (k_live k3) # k_live k3
            \<and> length (k_mem k' (fresh (k_live k3))) = unat (sc_isize sc')
            \<and> (\<exists>es. k_trace k' = k_trace k3 @ es
                   \<and> filter is_truncation_msg es = truncation_log env sc3))
      \<and> (device_add_child_result env = None \<longrightarrow>
            set (k_live k') = set (k_live k3) - set (owned sc3) \<and> k_children k' = k_children k3)"
proof -
  let ?r = "Req_set_idle (uaa_device uaa) (uaa_bIfaceIndex uaa) 0 0"
  let ?k5 = "if usbd_req env ?r \<noteq> USB_ERR_NORMAL_COMPLETION
       then emit (DPRINTF ''set idle failed, error=%s (ignored)'') (emit (Usbd_req ?r) k3)
       else emit (Usbd_req ?r) k3"
  obtain sc6 k6 where sz: "uhid_attach_sizes env sc3 ?k5 = (sc6, k6)"
    by (cases "uhid_attach_sizes env sc3 ?k5")
  have sc6_def: "sc6 = fst (uhid_attach_sizes env sc3 ?k5)"
    and k6_def: "k6 = snd (uhid_attach_sizes env sc3 ?k5)"
    by (simp_all only: sz fst_conv snd_conv)
  define f where "f = fresh (k_live k3)"
  define k7 where "k7 = emit (Malloc (Heap f) (unat (sc_isize sc6)))
       (k6\<lparr>k_live := f # k_live k6, k_mem := (k_mem k6)(f := replicate (unat (sc_isize sc6)) 0)\<rparr>)"
  define sc8 where "sc8 = (uhid_attach_hw env d uaa (sc6\<lparr>sc_ibuf := Heap f\<rparr>))\<lparr>sc_child := device_add_child_result env\<rparr>"
  define k8 where "k8 = device_add_child ''hidbus'' (device_add_child_result env) k7"
  have l5: "k_live ?k5 = k_live k3" and c5: "k_children ?k5 = k_children k3"
    by (simp_all add: emit_def)
  have l6: "k_live k6 = k_live k3" and c6: "k_children k6 = k_children k3"
    unfolding k6_def uhid_attach_sizes_kernel using l5 c5 by simp_all
  have m: "malloc (unat (sc_isize sc6)) k6 = (Heap f, k7)"
    by (simp add: malloc_def k7_def f_def l6 Let_def)
  have unf_none: "uhid_attach_finish env d uaa sc3 k3 =
      uhid_attach_fail sc8 (emit (Device_printf ''Could not add hidbus device'') k8)"
    if "device_add_child_result env = None"
    unfolding uhid_attach_finish_def Let_def sz using that
    by (simp add: m sc8_def k8_def)
  have unf_some: "uhid_attach_finish env d uaa sc3 k3 =
      Some ((0, sc8),
          (if bus_generic_attach_result env \<noteq> 0
           then emit (Device_printf ''failed to attach child: %d'')
                  (emit Bus_generic_attach (emit (Device_set_ivars c) k8))
           else emit Bus_generic_attach (emit (Device_set_ivars c) k8)))"
    if "device_add_child_result env = Some c" for c
    unfolding uhid_attach_finish_def Let_def sz using that
    by (simp add: m sc8_def k8_def)
  have f6: "sc_repdesc_ptr sc6 = sc_repdesc_ptr sc3" "sc_flags sc6 = sc_flags sc3"
    "sc_repdesc_size sc6 = sc_repdesc_size sc3"
    "sc_isize sc6 = min (fst (hid_report_size env (sc_repdesc_ptr sc3) (sc_repdesc_size sc3) hid_input)) UHID_BSIZE"
    "sc_osize sc6 = min (fst (hid_report_size env (sc_repdesc_ptr sc3) (sc_repdesc_size sc3) hid_output)) UHID_BSIZE"
    "sc_fsize sc6 = min (fst (hid_report_size env (sc_repdesc_ptr sc3) (sc_repdesc_size sc3) hid_feature)) UHID_BSIZE"
    unfolding sc6_def by (simp_all add: uhid_attach_sizes_fields)
  have f8: "sc_repdesc_ptr sc8 = sc_repdesc_ptr sc3" "sc_flags sc8 = sc_flags sc3"
    "sc_repdesc_size sc8 = sc_repdesc_size sc3"
    "sc_ibuf sc8 = Heap f" "sc_child sc8 = device_add_child_result env"
    "sc_isize sc8 = sc_isize sc6" "sc_osize sc8 = sc_osize sc6" "sc_fsize sc8 = sc_fsize sc6"
    by (simp_all add: sc8_def uhid_attach_hw_fields f6)
  have l7: "k_live k7 = f # k_live k3" and c7: "k_children k7 = k_children k3"
    and m7: "k_mem k7 f = replicate (unat (sc_isize sc6)) 0"
    by (simp_all add: k7_def emit_def l6 c6)
  show ?thesis
  proof (cases "device_add_child_result env")
    case (Some c)
    have "k_live k8 = f # k_live k3" "k_mem k8 f = replicate (unat (sc_isize sc6)) 0"
      by (simp_all add: k8_def device_add_child_def emit_def Some l7 m7)
    moreover have t6: "k_trace k6 = k_trace ?k5 @ truncation_log env sc3"
      unfolding k6_def by (rule uhid_attach_sizes_trace)
    have "k_trace k8 = k_trace k3
        @ ([Usbd_req ?r]
           @ (if usbd_req env ?r \<noteq> USB_ERR_NORMAL_COMPLETION
              then [DPRINTF ''set idle failed, error=%s (ignored)''] else [])
           @ truncation_log env sc3
           @ [Malloc (Heap f) (unat (sc_isize sc6)), Device_add_child ''hidbus'' (Some c)])"
      by (simp add: k8_def device_add_child_def emit_def Some k7_def t6)
    then have "\<exists>es. k_trace k8 = k_trace k3 @ es \<and> filter is_truncation_msg es = truncation_log env sc3"
      by (simp add: filter_truncation_log is_truncation_msg_def)
    then have "\<exists>es. k_trace (if bus_generic_attach_result env \<noteq> 0
           then emit (Device_printf ''failed to attach child: %d'')
                  (emit Bus_generic_attach (emit (Device_set_ivars c) k8))
           else emit Bus_generic_attach (emit (Device_set_ivars c) k8)) = k_trace k3 @ es
           \<and> filter is_truncation_msg es = truncation_log env sc3"
      by (auto simp: emit_def is_truncation_msg_def)
    ultimately show ?thesis
      unfolding unf_some [OF Some] using Some f8 f6
      by (simp add: emit_def f_def)
  next
    case None
    let ?k = "emit (Device_printf ''Could not add hidbus device'') k8"
    have l8: "k_live ?k = f # k_live k3" and c8: "k_children ?k = k_children k3"
      by (simp_all add: k8_def device_add_child_def emit_def None l7 c7)
    have fn: "f \<notin> set (k_live k3)" unfolding f_def by (rule fresh_notin)
    have o8: "owned sc8 = owned sc3 @ [f]"
      unfolding owned_def f8 nb by simp
    have sub: "set (owned sc3) \<subseteq> set (k_live k3)" and dis: "distinct (owned sc3)"
      using own by (simp_all add: softc_owns_def)
    have own8: "softc_owns sc8 ?k"
      using own sub dis fn unfolding softc_owns_def o8 l8 f8 by auto
    from uhid_attach_fail_owns [OF own8] obtain k' where
      k': "uhid_attach_fail sc8 ?k = Some ((ENOMEM, sc8), k')"
        "set (k_live k') = set (k_live ?k) - set (owned sc8)"
        "k_children k' = (case sc_child sc8 of None \<Rightarrow> k_children ?k | Some c \<Rightarrow> removeAll c (k_children ?k))"
      by blast
    have "set (k_live k') = set (k_live k3) - set (owned sc3)"
      using k'(2) fn by (auto simp: l8 o8)
    moreover have "k_children k' = k_children k3"
      using k'(3) by (simp add: f8 None c8)
    ultimately show ?thesis
      unfolding unf_none [OF None] using None k'(1) f8 f6
      by (simp add: f_def)
  qed
qed

lemma attach_sc1_fields:
  "sc_flags (attach_sc1 uaa) = 0" "sc_repdesc_ptr (attach_sc1 uaa) = NULL"
  "sc_ibuf (attach_sc1 uaa) = NULL" "sc_child (attach_sc1 uaa) = None"
  by (simp_all add: attach_sc1_def uhid_softc_zero_def)

lemma uhid_attach_static:
  assumes "uhid_static_device uaa"
  shows "uhid_attach env d uaa uhid_softc_zero k =
     uhid_attach_finish env d uaa (fst (uhid_attach_quirks env uaa (attach_sc1 uaa) k))
       (snd (uhid_attach_quirks env uaa (attach_sc1 uaa) k))"
proof -
  obtain s where "sc_repdesc_ptr (fst (uhid_attach_quirks env uaa (attach_sc1 uaa) k)) = Static s"
    using uhid_attach_quirks_static(1) [OF assms attach_sc1_fields(1) [of uaa]] by blast
  then show ?thesis
    unfolding uhid_attach_def Let_def attach_sc1_def [symmetric]
    by (simp add: case_prod_beta)
qed

lemma uhid_attach_dynamic_fail:
  assumes "\<not> uhid_static_device uaa"
    and "usbd_req env (Req_get_hid_desc (uaa_device uaa) (uaa_bIfaceIndex uaa)) \<noteq> USB_ERR_NORMAL_COMPLETION"
  shows "uhid_attach env d uaa uhid_softc_zero k =
     uhid_attach_fail (attach_sc1 uaa)
       (emit (Device_printf ''no report descriptor'')
          (emit (Usbd_req (Req_get_hid_desc (uaa_device uaa) (uaa_bIfaceIndex uaa))) k))"
  unfolding uhid_attach_def Let_def attach_sc1_def [symmetric]
    uhid_attach_quirks_dynamic [OF assms(1)]
  using assms(2) by (simp add: attach_sc1_fields usbd_req_get_hid_desc_def Let_def)

lemma uhid_attach_dynamic_ok:
  assumes "\<not> uhid_static_device uaa"
    and "usbd_req env (Req_get_hid_desc (uaa_device uaa) (uaa_bIfaceIndex uaa)) = USB_ERR_NORMAL_COMPLETION"
  shows "uhid_attach env d uaa uhid_softc_zero k =
     uhid_attach_finish env d uaa
       ((attach_sc1 uaa)\<lparr>sc_repdesc_ptr := Heap (fresh (k_live k)),
                         sc_repdesc_size := hid_desc_size env\<rparr>)
       (snd (malloc (unat (hid_desc_size env))
          (emit (Usbd_req (Req_get_hid_desc (uaa_device uaa) (uaa_bIfaceIndex uaa))) k)))"
  unfolding uhid_attach_def Let_def attach_sc1_def [symmetric]
    uhid_attach_quirks_dynamic [OF assms(1)]
  using assms(2)
  by (simp add: attach_sc1_fields usbd_req_get_hid_desc_def Let_def malloc_def emit_def)

lemma fresh_Cons_neq: "fresh (a # as) \<noteq> a"
  by simp

lemma uhid_attach_outcome:
  "\<exists>sc' k'. uhid_attach env d uaa uhid_softc_zero k =
        Some ((if uhid_attach_succeeds env uaa then 0 else ENOMEM, sc'), k')
     \<and> (if uhid_attach_succeeds env uaa
         then softc_owns sc' k'
            \<and> set (k_live k') = set (k_live k) \<union> set (owned sc')
            \<and> set (owned sc') \<inter> set (k_live k) = {}
            \<and> sc_isize sc' = min (fst (hid_report_size env (sc_repdesc_ptr sc') (sc_repdesc_size sc') hid_input)) UHID_BSIZE
            \<and> sc_osize sc' = min (fst (hid_report_size env (sc_repdesc_ptr sc') (sc_repdesc_size sc') hid_output)) UHID_BSIZE
            \<and> sc_fsize sc' = min (fst (hid_report_size env (sc_repdesc_ptr sc') (sc_repdesc_size sc') hid_feature)) UHID_BSIZE
            \<and> (if uhid_static_device uaa
                then (\<exists>s. sc_repdesc_ptr sc' = Static s) \<and> sc_flags sc' AND UHID_FLAG_STATIC_DESC \<noteq> 0
                else (\<exists>a. sc_repdesc_ptr sc' = Heap a) \<and> sc_flags sc' AND UHID_FLAG_STATIC_DESC = 0)
            \<and> (\<exists>b. sc_ibuf sc' = Heap b \<and> length (k_mem k' b) = unat (sc_isize sc'))
            \<and> sc_child sc' = device_add_child_result env
            \<and> filter is_truncation_msg (new_events k k') = truncation_log env sc'
         else set (k_live k') = set (k_live k) \<and> k_children k' = k_children k)"
proof (cases "uhid_static_device uaa")
  case True
  let ?Q = "uhid_attach_quirks env uaa (attach_sc1 uaa) k"
  note q = uhid_attach_quirks_static [OF True attach_sc1_fields(1) [of uaa], of env k]
  obtain s where s: "sc_repdesc_ptr (fst ?Q) = Static s" using q(1) by blast
  have nb: "sc_ibuf (fst ?Q) = NULL" using q(3) by (simp add: attach_sc1_fields)
  have o: "owned (fst ?Q) = []" by (simp add: owned_def s nb)
  have own: "softc_owns (fst ?Q) (snd ?Q)"
    using q(2) by (simp add: softc_owns_def o s nb)
  from uhid_attach_finish_result [OF own nb, of env d uaa] obtain sc' k' where
    r: "uhid_attach_finish env d uaa (fst ?Q) (snd ?Q) =
            Some ((if device_add_child_result env = None then ENOMEM else 0, sc'), k')"
    and sz: "sc_isize sc' = min (fst (hid_report_size env (sc_repdesc_ptr (fst ?Q)) (sc_repdesc_size (fst ?Q)) hid_input)) UHID_BSIZE"
      "sc_osize sc' = min (fst (hid_report_size env (sc_repdesc_ptr (fst ?Q)) (sc_repdesc_size (fst ?Q)) hid_output)) UHID_BSIZE"
      "sc_fsize sc' = min (fst (hid_report_size env (sc_repdesc_ptr (fst ?Q)) (sc_repdesc_size (fst ?Q)) hid_feature)) UHID_BSIZE"
    and f: "sc_repdesc_ptr sc' = sc_repdesc_ptr (fst ?Q)" "sc_flags sc' = sc_flags (fst ?Q)"
      "sc_repdesc_size sc' = sc_repdesc_size (fst ?Q)"
      "sc_ibuf sc' = Heap (fresh (k_live (snd ?Q)))" "sc_child sc' = device_add_child_result env"
    and good: "device_add_child_result env \<noteq> None \<Longrightarrow>
            k_live k' = fresh (k_live (snd ?Q)) # k_live (snd ?Q)
            \<and> length (k_mem k' (fresh (k_live (snd ?Q)))) = unat (sc_isize sc')
            \<and> (\<exists>es. k_trace k' = k_trace (snd ?Q) @ es
                   \<and> filter is_truncation_msg es = truncation_log env (fst ?Q))"
    and bad: "device_add_child_result env = None \<Longrightarrow>
            set (k_live k') = set (k_live (snd ?Q)) - set (owned (fst ?Q)) \<and> k_children k' = k_children (snd ?Q)"
    by (elim exE conjE) simp
  have att: "uhid_attach env d uaa uhid_softc_zero k =
      Some ((if uhid_attach_succeeds env uaa then 0 else ENOMEM, sc'), k')"
    unfolding uhid_attach_static [OF True] r using True
    by (simp add: uhid_attach_succeeds_def)
  show ?thesis
  proof (cases "device_add_child_result env = None")
    case True
    then have ns: "\<not> uhid_attach_succeeds env uaa" by (simp add: uhid_attach_succeeds_def)
    show ?thesis using att bad [OF True] ns by (simp add: o q(5) q(6))
  next
    case False
    then have ok: "uhid_attach_succeeds env uaa" using True by (simp add: uhid_attach_succeeds_def)
    have o': "owned sc' = [fresh (k_live k)]"
      by (simp add: owned_def f s q(5))
    have l': "k_live k' = fresh (k_live k) # k_live k"
      and m': "length (k_mem k' (fresh (k_live k))) = unat (sc_isize sc')"
      using good [OF False] by (simp_all add: q(5))
    have own': "softc_owns sc' k'"
      using q(2) by (simp add: softc_owns_def o' l' f s)
    obtain es0 where es0: "k_trace (snd ?Q) = k_trace k @ es0" "filter is_truncation_msg es0 = []"
      using uhid_attach_quirks_trace [of env uaa "attach_sc1 uaa" k] by blast
    obtain es where es: "k_trace k' = k_trace (snd ?Q) @ es"
        "filter is_truncation_msg es = truncation_log env (fst ?Q)"
      using good [OF False] by blast
    have tl: "truncation_log env sc' = truncation_log env (fst ?Q)"
      by (simp add: truncation_log_def f)
    have tr: "filter is_truncation_msg (new_events k k') = truncation_log env sc'"
      by (simp add: new_events_def es es0 tl)
    show ?thesis
      using att ok True own' sz q(2) m' tr fresh_notin [of "k_live k"]
      by (simp add: o' l' f s q(5))
  qed
next
  case False
  let ?r = "Req_get_hid_desc (uaa_device uaa) (uaa_bIfaceIndex uaa)"
  show ?thesis
  proof (cases "usbd_req env ?r = USB_ERR_NORMAL_COMPLETION")
    case bad: False
    then have ns: "\<not> uhid_attach_succeeds env uaa" using False by (simp add: uhid_attach_succeeds_def)
    let ?k = "emit (Device_printf ''no report descriptor'') (emit (Usbd_req ?r) k)"
    have o: "owned (attach_sc1 uaa) = []" by (simp add: owned_def attach_sc1_fields)
    have own: "softc_owns (attach_sc1 uaa) ?k"
      by (simp add: softc_owns_def o attach_sc1_fields)
    from uhid_attach_fail_owns [OF own] obtain k' where
      "uhid_attach_fail (attach_sc1 uaa) ?k = Some ((ENOMEM, attach_sc1 uaa), k')"
      "set (k_live k') = set (k_live ?k) - set (owned (attach_sc1 uaa))"
      "k_children k' = (case sc_child (attach_sc1 uaa) of None \<Rightarrow> k_children ?k
          | Some c \<Rightarrow> removeAll c (k_children ?k))"
      by blast
    then show ?thesis
      unfolding uhid_attach_dynamic_fail [OF False bad] using ns
      by (simp add: o attach_sc1_fields emit_def)
  next
    case good: True
    define f0 where "f0 = fresh (k_live k)"
    let ?sc3 = "(attach_sc1 uaa)\<lparr>sc_repdesc_ptr := Heap f0, sc_repdesc_size := hid_desc_size env\<rparr>"
    let ?k3 = "snd (malloc (unat (hid_desc_size env)) (emit (Usbd_req ?r) k))"
    have l3: "k_live ?k3 = f0 # k_live k" and c3: "k_children ?k3 = k_children k"
      by (simp_all add: malloc_def emit_def Let_def f0_def)
    have nb: "sc_ibuf ?sc3 = NULL" by (simp add: attach_sc1_fields)
    have fl: "sc_flags ?sc3 AND UHID_FLAG_STATIC_DESC = 0" by (simp add: attach_sc1_fields)
    have o: "owned ?sc3 = [f0]" unfolding owned_def using fl nb by simp
    have own: "softc_owns ?sc3 ?k3" by (simp add: softc_owns_def o l3 nb)
    have f0n: "f0 \<notin> set (k_live k)" unfolding f0_def by (rule fresh_notin)
    from uhid_attach_finish_result [OF own nb, of env d uaa] obtain sc' k' where
      r: "uhid_attach_finish env d uaa ?sc3 ?k3 =
            Some ((if device_add_child_result env = None then ENOMEM else 0, sc'), k')"
      and sz: "sc_isize sc' = min (fst (hid_report_size env (sc_repdesc_ptr ?sc3) (sc_repdesc_size ?sc3) hid_input)) UHID_BSIZE"
        "sc_osize sc' = min (fst (hid_report_size env (sc_repdesc_ptr ?sc3) (sc_repdesc_size ?sc3) hid_output)) UHID_BSIZE"
        "sc_fsize sc' = min (fst (hid_report_size env (sc_repdesc_ptr ?sc3) (sc_repdesc_size ?sc3) hid_feature)) UHID_BSIZE"
      and f: "sc_repdesc_ptr sc' = sc_repdesc_ptr ?sc3" "sc_flags sc' = sc_flags ?sc3"
        "sc_repdesc_size sc' = sc_repdesc_size ?sc3"
        "sc_ibuf sc' = Heap (fresh (k_live ?k3))" "sc_child sc' = device_add_child_result env"
      and ok_case: "device_add_child_result env \<noteq> None \<Longrightarrow>
              k_live k' = fresh (k_live ?k3) # k_live ?k3
              \<and> length (k_mem k' (fresh (k_live ?k3))) = unat (sc_isize sc')
              \<and> (\<exists>es. k_trace k' = k_trace ?k3 @ es
                     \<and> filter is_truncation_msg es = truncation_log env ?sc3)"
      and bad_case: "device_add_child_result env = None \<Longrightarrow>
              set (k_live k') = set (k_live ?k3) - set (owned ?sc3) \<and> k_children k' = k_children ?k3"
      by (elim exE conjE) simp
    have att: "uhid_attach env d uaa uhid_softc_zero k =
        Some ((if uhid_attach_succeeds env uaa then 0 else ENOMEM, sc'), k')"
      unfolding uhid_attach_dynamic_ok [OF False good] f0_def [symmetric] r
      using False good by (simp add: uhid_attach_succeeds_def)
    show ?thesis
    proof (cases "device_add_child_result env = None")
      case True
      then have ns: "\<not> uhid_attach_succeeds env uaa" by (simp add: uhid_attach_succeeds_def)
      have "set (k_live k') = set (k_live k)" "k_children k' = k_children k"
        using bad_case [OF True] f0n by (auto simp: o l3 c3)
      then show ?thesis using att ns by simp
    next
      case nn: False
      then have ok: "uhid_attach_succeeds env uaa" using good by (simp add: uhid_attach_succeeds_def)
      define f1 where "f1 = fresh (f0 # k_live k)"
      have f1n: "f1 \<noteq> f0" "f1 \<notin> set (k_live k)"
        using fresh_notin [of "f0 # k_live k"] by (simp_all add: f1_def)
      have ib: "sc_ibuf sc' = Heap f1" using f(4) by (simp add: l3 f1_def)
      have pt: "sc_repdesc_ptr sc' = Heap f0" using f(1) by simp
      have fl': "sc_flags sc' AND UHID_FLAG_STATIC_DESC = 0" using f(2) fl by simp
      have o': "owned sc' = [f0, f1]" unfolding owned_def using ib pt fl' by simp
      have l': "k_live k' = f1 # f0 # k_live k"
        and m': "length (k_mem k' f1) = unat (sc_isize sc')"
        using ok_case [OF nn] by (simp_all add: l3 f1_def)
      have own': "softc_owns sc' k'"
        using f1n by (simp add: softc_owns_def o' l' ib pt)
      have sz': "sc_isize sc' = min (fst (hid_report_size env (sc_repdesc_ptr sc') (sc_repdesc_size sc') hid_input)) UHID_BSIZE"
        "sc_osize sc' = min (fst (hid_report_size env (sc_repdesc_ptr sc') (sc_repdesc_size sc') hid_output)) UHID_BSIZE"
        "sc_fsize sc' = min (fst (hid_report_size env (sc_repdesc_ptr sc') (sc_repdesc_size sc') hid_feature)) UHID_BSIZE"
        using sz by (simp_all only: f(1) f(3))
      obtain es where es: "k_trace k' = k_trace ?k3 @ es"
          "filter is_truncation_msg es = truncation_log env ?sc3"
        using ok_case [OF nn] by blast
      have t3: "k_trace ?k3 = k_trace k @ [Usbd_req ?r, Malloc (Heap f0) (unat (hid_desc_size env))]"
        by (simp add: malloc_def emit_def Let_def f0_def)
      have tl: "truncation_log env sc' = truncation_log env ?sc3"
        unfolding truncation_log_def f(1) f(3) ..
      have tr: "filter is_truncation_msg (new_events k k') = truncation_log env sc'"
        unfolding tl new_events_def es(1) t3 using es(2) by (simp add: is_truncation_msg_def)
      have "set (k_live k') = set (k_live k) \<union> set (owned sc')"
        "set (owned sc') \<inter> set (k_live k) = {}"
        using f0n f1n by (auto simp: o' l')
      then show ?thesis
        using att ok False own' sz' pt fl' ib m' f(5) tr by simp
    qed
  qed
qed

subsection \<open>The interrupt pump: the claims\<close>

text \<open>
  \<^bold>\<open>C1.\<close> A completed interrupt read of actual length \<open>L\<close> (the signed value of
  \<open>xfer_actlen\<close>) is handed to the stored handler (the routing function
  \<^verbatim>\<open>hidbus_intr\<close>, which \<^verbatim>\<open>hidbus_attach\<close> passes to the interrupt setup) if and only if \<open>L\<close> is at least
  the input report size, or \<open>L\<close> is positive and the input report id is not zero. The
  handler is called at most once. Every other completed read changes nothing but the
  trace: the two debug lines, and the transfer is armed again. In both cases the run
  ends with the frame length set and the transfer submitted.
\<close>

theorem intr_read_accept_iff:
  assumes ready: "pump_ready sc xfer k"
    and st: "xfer_state xfer = USB_ST_TRANSFERRED"
  shows "\<exists>k'. uhid_intr_read_callback sc xfer error k = Some k'
      \<and> (delivered k k' \<noteq> [] \<longleftrightarrow>
           uint (sc_isize sc) \<le> sint (xfer_actlen xfer)
           \<or> (0 < sint (xfer_actlen xfer) \<and> sc_iid sc \<noteq> 0))
      \<and> length (delivered k k') \<le> 1
      \<and> (delivered k k' = [] \<longrightarrow>
           k' = k\<lparr>k_trace := k_trace k @
                  [DPRINTF ''transferred!'', DPRINTF ''ignored transfer, %d bytes'',
                   Usbd_xfer_set_frame_len 0 (sc_isize sc), Usbd_transfer_submit]\<rparr>)
      \<and> (\<exists>es. k_trace k' = k_trace k @ es @
                  [Usbd_xfer_set_frame_len 0 (sc_isize sc), Usbd_transfer_submit])"
proof -
  obtain h where h: "sc_intr_handler sc = Some h"
    using ready by (auto simp: pump_ready_def)
  obtain a where a: "sc_ibuf sc = Heap a"
    using ready by (cases "sc_ibuf sc") (simp_all add: pump_ready_def)
  note r = callback_transferred [OF ready st h a, of error]
  show ?thesis
  proof (cases "uint (sc_isize sc) \<le> sint (xfer_actlen xfer)
           \<or> (0 < sint (xfer_actlen xfer) \<and> sc_iid sc \<noteq> 0)")
    case True
    show ?thesis
      unfolding r by (simp only: True if_True) (simp add: delivered_def is_intr_call_def)
  next
    case False
    show ?thesis
      unfolding r by (simp only: False if_False) (simp add: delivered_def is_intr_call_def)
  qed
qed

theorem intr_read_accept_iff_witness:
  "pump_ready (example_sc 0) (example_xfer USB_ST_TRANSFERRED 3 0) example_kernel
   \<and> (\<exists>k'. uhid_intr_read_callback (example_sc 0) (example_xfer USB_ST_TRANSFERRED 3 0)
              USB_ERR_NORMAL_COMPLETION example_kernel = Some k'
          \<and> delivered example_kernel k' = [])"
proof -
  have r: "pump_ready (example_sc 0) (example_xfer USB_ST_TRANSFERRED 3 0) example_kernel"
    by (simp add: pump_ready_def example_sc_def example_xfer_def example_kernel_def
        uhid_softc_zero_def UHID_BSIZE_def)
  have s: "xfer_state (example_xfer USB_ST_TRANSFERRED 3 0) = USB_ST_TRANSFERRED"
    by (simp add: example_xfer_def)
  have nc: "\<not> (uint (sc_isize (example_sc 0)) \<le> sint (xfer_actlen (example_xfer USB_ST_TRANSFERRED 3 0))
      \<or> (0 < sint (xfer_actlen (example_xfer USB_ST_TRANSFERRED 3 0)) \<and> sc_iid (example_sc 0) \<noteq> 0))"
    by (simp add: example_sc_def example_xfer_def uhid_softc_zero_def)
  from intr_read_accept_iff [OF r s, of USB_ERR_NORMAL_COMPLETION] nc r
  show ?thesis by blast
qed

text \<open>
  \<^bold>\<open>C2.\<close> For an accepted read the handler receives the length
  \<open>min L (sc_isize sc)\<close>; exactly that many bytes are copied out of the frame, from
  offset 0, and they are the bytes the handler is given. A transfer whose frame
  differs only at offsets at or beyond the input report size leads to the very same
  state: no byte from there is read.
\<close>

theorem intr_read_truncation:
  assumes ready: "pump_ready sc xfer k"
    and st: "xfer_state xfer = USB_ST_TRANSFERRED"
    and acc: "uint (sc_isize sc) \<le> sint (xfer_actlen xfer)
              \<or> (0 < sint (xfer_actlen xfer) \<and> sc_iid sc \<noteq> 0)"
    and h: "sc_intr_handler sc = Some h"
    and st': "xfer_state xfer' = USB_ST_TRANSFERRED"
    and len': "xfer_actlen xfer' = xfer_actlen xfer"
    and flen': "length (xfer_frame0 xfer') = length (xfer_frame0 xfer)"
    and same: "take (unat (sc_isize sc)) (xfer_frame0 xfer') = take (unat (sc_isize sc)) (xfer_frame0 xfer)"
  shows "\<exists>k' len. uhid_intr_read_callback sc xfer error k = Some k'
      \<and> unat len = min (nat (sint (xfer_actlen xfer))) (unat (sc_isize sc))
      \<and> k_trace k' = k_trace k @
           [DPRINTF ''transferred!'',
            Usbd_copy_out 0 (sc_ibuf sc) (unat len),
            Intr_call h (sc_intr_context sc) (sc_ibuf sc) len (take (unat len) (xfer_frame0 xfer)),
            Usbd_xfer_set_frame_len 0 (sc_isize sc), Usbd_transfer_submit]
      \<and> uhid_intr_read_callback sc xfer' error k = Some k'"
proof -
  let ?n = "min (nat (sint (xfer_actlen xfer))) (unat (sc_isize sc))"
  obtain a where a: "sc_ibuf sc = Heap a"
    using ready by (cases "sc_ibuf sc") (simp_all add: pump_ready_def)
  have ready': "pump_ready sc xfer' k"
    using ready flen' by (simp add: pump_ready_def)
  have isz: "sc_isize sc \<le> 1024" using ready by (simp add: pump_ready_def UHID_BSIZE_def)
  have c': "uint (sc_isize sc) \<le> sint (xfer_actlen xfer) \<or> 0 < sint (xfer_actlen xfer)"
    using acc by blast
  have n: "unat (accepted_len32 sc xfer) = ?n"
    unfolding accepted_len32_def using isz c' by (rule accepted_len)
  have ub: "unat (sc_isize sc) \<le> 1024" using small_sint(2) [OF isz] by (rule small_unat)
  have n16: "unat (ucast (accepted_len32 sc xfer) :: 16 word) = ?n"
    using ucast_len [of "accepted_len32 sc xfer"] n ub by simp
  have l32: "accepted_len32 sc xfer' = accepted_len32 sc xfer"
    by (simp add: accepted_len32_def len')
  have "take ?n (take (unat (sc_isize sc)) (xfer_frame0 xfer')) =
        take ?n (take (unat (sc_isize sc)) (xfer_frame0 xfer))"
    by (simp only: same)
  then have tk: "take ?n (xfer_frame0 xfer') = take ?n (xfer_frame0 xfer)"
    by (simp add: min.absorb1)
  have r: "uhid_intr_read_callback sc xfer error k = Some
       (k\<lparr>k_mem := (k_mem k)(a := take ?n (xfer_frame0 xfer) @ drop ?n (k_mem k a)),
          k_trace := k_trace k @
            [DPRINTF ''transferred!'', Usbd_copy_out 0 (Heap a) ?n,
             Intr_call h (sc_intr_context sc) (Heap a) (ucast (accepted_len32 sc xfer))
               (take ?n (xfer_frame0 xfer)),
             Usbd_xfer_set_frame_len 0 (sc_isize sc), Usbd_transfer_submit]\<rparr>)"
    unfolding callback_transferred [OF ready st h a, of error] by (simp only: acc if_True)
  have acc': "uint (sc_isize sc) \<le> sint (xfer_actlen xfer')
              \<or> (0 < sint (xfer_actlen xfer') \<and> sc_iid sc \<noteq> 0)"
    using acc by (simp only: len')
  have r': "uhid_intr_read_callback sc xfer' error k = uhid_intr_read_callback sc xfer error k"
    unfolding r unfolding callback_transferred [OF ready' st' h a, of error]
    by (simp only: acc' if_True) (simp only: len' tk l32)
  show ?thesis
    unfolding r' unfolding r using n16 by (simp add: a)
qed


theorem intr_read_truncation_witness:
  "pump_ready (example_sc 2) (example_xfer USB_ST_TRANSFERRED 3 0) example_kernel
   \<and> (\<exists>k' len. uhid_intr_read_callback (example_sc 2) (example_xfer USB_ST_TRANSFERRED 3 0)
              USB_ERR_NORMAL_COMPLETION example_kernel = Some k'
          \<and> unat (len :: 16 word) = 3
          \<and> uhid_intr_read_callback (example_sc 2) (example_xfer USB_ST_TRANSFERRED 3 255)
              USB_ERR_NORMAL_COMPLETION example_kernel = Some k')"
proof -
  let ?x = "example_xfer USB_ST_TRANSFERRED 3 0"
  let ?x' = "example_xfer USB_ST_TRANSFERRED 3 255"
  have r: "pump_ready (example_sc 2) ?x example_kernel"
    by (simp add: pump_ready_def example_sc_def example_xfer_def example_kernel_def
        uhid_softc_zero_def UHID_BSIZE_def)
  have s: "xfer_state ?x = USB_ST_TRANSFERRED" and s': "xfer_state ?x' = USB_ST_TRANSFERRED"
    and l: "xfer_actlen ?x' = xfer_actlen ?x"
    and f: "length (xfer_frame0 ?x') = length (xfer_frame0 ?x)"
    by (simp_all add: example_xfer_def)
  have c: "uint (sc_isize (example_sc 2)) \<le> sint (xfer_actlen ?x)
      \<or> (0 < sint (xfer_actlen ?x) \<and> sc_iid (example_sc 2) \<noteq> 0)"
    by (simp add: example_sc_def example_xfer_def uhid_softc_zero_def)
  have h: "sc_intr_handler (example_sc 2) = Some 7"
    by (simp add: example_sc_def)
  have t: "take (unat (sc_isize (example_sc 2))) (xfer_frame0 ?x')
         = take (unat (sc_isize (example_sc 2))) (xfer_frame0 ?x)"
    by (simp add: example_sc_def example_xfer_def)
  have m: "min (nat (sint (xfer_actlen ?x))) (unat (sc_isize (example_sc 2))) = 3"
    by (simp add: example_sc_def example_xfer_def)
  from intr_read_truncation [OF r s c h s' l f t, of USB_ERR_NORMAL_COMPLETION]
  obtain k' len where
    "uhid_intr_read_callback (example_sc 2) ?x USB_ERR_NORMAL_COMPLETION example_kernel = Some k'"
    "unat (len :: 16 word) = 3"
    "uhid_intr_read_callback (example_sc 2) ?x' USB_ERR_NORMAL_COMPLETION example_kernel = Some k'"
    unfolding m by auto
  with r show ?thesis by auto
qed

text \<open>
  \<^bold>\<open>C3.\<close> When the transfer completes with an error other than
  \<open>USB_ERR_CANCELLED\<close>, the callback sets the stall flag once and submits the transfer
  again; when the error is \<open>USB_ERR_CANCELLED\<close> it returns and does nothing.
\<close>

theorem intr_read_error:
  assumes "xfer_state xfer = USB_ST_ERROR"
  shows "uhid_intr_read_callback sc xfer error k =
          Some (if error \<noteq> USB_ERR_CANCELLED
                then k\<lparr>k_trace := k_trace k @
                        [Usbd_xfer_set_stall,
                         Usbd_xfer_set_frame_len 0 (sc_isize sc), Usbd_transfer_submit]\<rparr>
                else k)"
  using assms by (simp add: uhid_intr_read_callback_def re_submit_def emit_def)

theorem intr_read_error_witness:
  "uhid_intr_read_callback (example_sc 0) (example_xfer USB_ST_ERROR 0 0) USB_ERR_STALLED example_kernel
     = Some (example_kernel\<lparr>k_trace :=
              [Usbd_xfer_set_stall, Usbd_xfer_set_frame_len 0 8, Usbd_transfer_submit]\<rparr>)
   \<and> uhid_intr_read_callback (example_sc 0) (example_xfer USB_ST_ERROR 0 0) USB_ERR_CANCELLED example_kernel
     = Some example_kernel"
proof -
  have s: "xfer_state (example_xfer USB_ST_ERROR 0 0) = USB_ST_ERROR"
    by (simp add: example_xfer_def)
  show ?thesis
    using intr_read_error [OF s, of "example_sc 0" USB_ERR_STALLED example_kernel]
      intr_read_error [OF s, of "example_sc 0" USB_ERR_CANCELLED example_kernel]
    by (simp add: example_sc_def example_kernel_def)
qed

subsection \<open>The bus node\<close>

text \<open>
  Against \<^bold>\<open>C4\<close> as stated: a second \<^verbatim>\<open>hid_set_intr\<close> on a bus node that has a
  handler does not fail and does not keep the first handler; handler and child are
  those of the second call.
\<close>

theorem hid_set_intr_rebind_counterexample:
  "intr (hid_set_intr (Some 1) (Some 10) hidbus_softc_zero) = Some 10
   \<and> child (hid_set_intr (Some 1) (Some 10) hidbus_softc_zero) = Some 1
   \<and> hid_set_intr (Some 2) (Some 20) (hid_set_intr (Some 1) (Some 10) hidbus_softc_zero)
       \<noteq> hid_set_intr (Some 1) (Some 10) hidbus_softc_zero
   \<and> intr (hid_set_intr (Some 2) (Some 20) (hid_set_intr (Some 1) (Some 10) hidbus_softc_zero)) = Some 20
   \<and> child (hid_set_intr (Some 2) (Some 20) (hid_set_intr (Some 1) (Some 10) hidbus_softc_zero)) = Some 2"
  by (simp add: hid_set_intr_def hidbus_softc_zero_def)

text \<open>
  \<^bold>\<open>C4\<close>, as the code has it: \<^verbatim>\<open>hid_set_intr\<close> always stores its arguments. After
  any sequence of calls the bus node holds the handler and the child of the last call
  and nothing of the earlier ones; the other fields are untouched. The node has one
  slot, so it never holds more than one handler.
\<close>

theorem hid_set_intr_last_wins:
  assumes "bs \<noteq> []"
  shows "hid_set_intr_all bs sc = sc\<lparr>child := fst (last bs), intr := snd (last bs)\<rparr>"
  using assms
proof (induction bs arbitrary: sc)
  case Nil
  then show ?case by simp
next
  case (Cons b bs)
  obtain c f where b: "b = (c, f)" by (cases b)
  show ?case
  proof (cases "bs = []")
    case True
    then show ?thesis by (simp add: b hid_set_intr_def)
  next
    case False
    then show ?thesis using Cons.IH [of "hid_set_intr c f sc"]
      by (simp add: b hid_set_intr_def)
  qed
qed

theorem hid_set_intr_last_wins_witness:
  "[(Some 1, Some 10), (Some 2, Some 20)] \<noteq> []
   \<and> hid_set_intr_all [(Some 1, Some 10), (Some 2, Some 20)] hidbus_softc_zero
       = hidbus_softc_zero\<lparr>child := Some 2, intr := Some 20\<rparr>"
  using hid_set_intr_last_wins [of "[(Some 1, Some 10), (Some 2, Some 20)]" hidbus_softc_zero]
  by simp

text \<open>
  Against \<^bold>\<open>C5\<close> as stated: on the bus node as attach leaves it, with no handler
  stored, \<^verbatim>\<open>hidbus_intr\<close> calls through the null pointer.
\<close>

theorem hidbus_intr_unbound_counterexample:
  "intr hidbus_softc_zero = None
   \<and> hidbus_intr hidbus_softc_zero (Heap 0) 8 example_kernel = None
   \<and> hidbus_intr hidbus_softc_zero (Heap 0) 8 example_kernel \<noteq> Some example_kernel"
  by (simp add: hidbus_intr_def call_intr_def hidbus_softc_zero_def)

text \<open>
  \<^bold>\<open>C5\<close>, as the code has it: when a handler is stored, \<^verbatim>\<open>hidbus_intr\<close> calls it
  exactly once with the stored child, the buffer and the length it was given, and
  changes nothing else.
\<close>

theorem hidbus_intr_bound:
  assumes "intr sc = Some h"
  shows "hidbus_intr sc buf len k =
     Some (k\<lparr>k_trace := k_trace k @
             [Intr_call h (child sc) buf len
                (case buf of Heap a \<Rightarrow> take (unat len) (k_mem k a) | _ \<Rightarrow> [])]\<rparr>)"
  using assms by (simp add: hidbus_intr_def call_intr_def emit_def)

theorem hidbus_intr_bound_witness:
  "intr (hid_set_intr (Some 1) (Some 10) hidbus_softc_zero) = Some 10
   \<and> hidbus_intr (hid_set_intr (Some 1) (Some 10) hidbus_softc_zero) (Heap 0) 8 example_kernel =
       Some (example_kernel\<lparr>k_trace := [Intr_call 10 (Some 1) (Heap 0) 8 (replicate 8 0)]\<rparr>)"
proof -
  have b: "intr (hid_set_intr (Some 1) (Some 10) hidbus_softc_zero) = Some 10"
    by (simp add: hid_set_intr_def)
  show ?thesis
    using hidbus_intr_bound [OF b, of "Heap 0" 8 example_kernel] b
    by (simp add: example_kernel_def hid_set_intr_def)
qed

subsection \<open>The HID interface of the USB transport\<close>

text \<open>
  \<^bold>\<open>C8.\<close> \<^verbatim>\<open>usbhid_get_input_report\<close> and \<^verbatim>\<open>usbhid_set_output_report\<close> return
  \<open>ENOTSUP\<close> on every input and do nothing. \<^verbatim>\<open>usbhid_get_report\<close>,
  \<^verbatim>\<open>usbhid_set_report\<close>, \<^verbatim>\<open>usbhid_set_idle\<close> and \<^verbatim>\<open>usbhid_set_protocol\<close> return
  \<open>ENXIO\<close> exactly when their request to the USB stack fails, return 0 otherwise,
  and so never return \<open>ENOTSUP\<close>.
\<close>

theorem usbhid_unsupported_vs_unreachable:
  "usbhid_get_input_report sc buf len k = (ENOTSUP, k)
   \<and> usbhid_set_output_report sc buf len k = (ENOTSUP, k)
   \<and> (fst (usbhid_get_report env sc buf len type id' k) = ENXIO \<longleftrightarrow>
        usbd_req env (Req_get_report (sc_udev sc) buf len (sc_iface_index sc) type id')
          \<noteq> USB_ERR_NORMAL_COMPLETION)
   \<and> (fst (usbhid_set_report env sc buf len type id' k) = ENXIO \<longleftrightarrow>
        usbd_req env (Req_set_report (sc_udev sc) buf len (sc_iface_index sc) type id')
          \<noteq> USB_ERR_NORMAL_COMPLETION)
   \<and> (fst (usbhid_set_idle env sc duration id' k) = ENXIO \<longleftrightarrow>
        usbd_req env (Req_set_idle (sc_udev sc) (sc_iface_index sc)
                        (word_of_int ((uint duration + 3) div 4)) id')
          \<noteq> USB_ERR_NORMAL_COMPLETION)
   \<and> (fst (usbhid_set_protocol env sc protocol k) = ENXIO \<longleftrightarrow>
        usbd_req env (Req_set_protocol (sc_udev sc) (sc_iface_index sc) protocol)
          \<noteq> USB_ERR_NORMAL_COMPLETION)
   \<and> fst (usbhid_get_report env sc buf len type id' k) \<in> {0, ENXIO}
   \<and> fst (usbhid_set_report env sc buf len type id' k) \<in> {0, ENXIO}
   \<and> fst (usbhid_set_idle env sc duration id' k) \<in> {0, ENXIO}
   \<and> fst (usbhid_set_protocol env sc protocol k) \<in> {0, ENXIO}
   \<and> ENOTSUP \<notin> {0, ENXIO}"
  by (simp add: usbhid_get_input_report_def usbhid_set_output_report_def usbhid_get_report_def
      usbhid_set_report_def usbhid_set_idle_def usbhid_set_protocol_def
      Let_def ENXIO_def ENOTSUP_def)

theorem usbhid_unsupported_vs_unreachable_witness:
  "usbhid_get_input_report uhid_softc_zero (Heap 0) 8 kernel0 = (45, kernel0)
   \<and> fst (usbhid_get_report (example_env USB_ERR_STALLED None) uhid_softc_zero (Heap 0) 8 1 0 kernel0) = 6
   \<and> fst (usbhid_get_report (example_env USB_ERR_NORMAL_COMPLETION None) uhid_softc_zero (Heap 0) 8 1 0 kernel0) = 0"
  using usbhid_unsupported_vs_unreachable [of uhid_softc_zero "Heap 0" 8 kernel0
      "example_env USB_ERR_STALLED None" 1 0 0 0]
    usbhid_unsupported_vs_unreachable [of uhid_softc_zero "Heap 0" 8 kernel0
      "example_env USB_ERR_NORMAL_COMPLETION None" 1 0 0 0]
  by (auto simp add: example_env_def ENXIO_def ENOTSUP_def)

lemma ceiling_quarter: "\<lceil>real_of_int n / 4\<rceil> = (n + 3) div 4"
proof -
  have "\<lceil>real_of_int n / real_of_int 4\<rceil> = - (- n div 4)"
    by (rule ceiling_divide_eq_div)
  also have "\<dots> = (n + 3) div 4" by presburger
  finally show ?thesis by simp
qed

lemma usbhid_set_idle_duration_byte:
  "(uint (duration :: 16 word) + 3) div 4 < 256 \<longleftrightarrow> duration \<le> 1020"
proof -
  have "(uint duration + 3) div 4 < 256 \<longleftrightarrow> uint duration \<le> 1020" by presburger
  then show ?thesis by (simp add: word_le_def)
qed

lemma uint_byte_of_int: "uint (word_of_int n :: 8 word) = n mod 256"
  by (simp add: uint_word_of_int)

lemma byte_unchanged_iff:
  fixes duration :: "16 word"
  shows "uint (word_of_int ((uint duration + 3) div 4) :: 8 word) = (uint duration + 3) div 4
         \<longleftrightarrow> duration \<le> 1020"
proof -
  let ?c = "(uint duration + 3) div 4"
  have nn: "0 \<le> ?c" by (simp add: pos_imp_zdiv_nonneg_iff)
  have m: "uint (word_of_int ?c :: 8 word) = ?c mod 256" by (rule uint_byte_of_int)
  have "?c mod 256 = ?c \<longleftrightarrow> ?c < 256"
  proof
    assume "?c mod 256 = ?c"
    moreover have "?c mod 256 < 256" by (rule pos_mod_bound) simp
    ultimately show "?c < 256" by (simp only:)
  next
    assume "?c < 256"
    then show "?c mod 256 = ?c" by (rule mod_pos_pos_trivial [OF nn])
  qed
  then show ?thesis
    by (simp only: m usbhid_set_idle_duration_byte)
qed

text \<open>
  Against \<^bold>\<open>C10\<close> as stated: for a duration of 1021 milliseconds the ceiling of
  \<open>d / 4\<close> is 256, and the set-idle request that \<^verbatim>\<open>usbhid_set_idle\<close> sends carries
  the duration 0.
\<close>

theorem usbhid_set_idle_duration_counterexample:
  "k_trace (snd (usbhid_set_idle (example_env USB_ERR_NORMAL_COMPLETION None) uhid_softc_zero
       1021 0 kernel0)) = [Usbd_req (Req_set_idle None 0 0 0)]
   \<and> \<lceil>real_of_int (uint (1021 :: 16 word)) / 4\<rceil> = 256
   \<and> uint (0 :: 8 word) \<noteq> \<lceil>real_of_int (uint (1021 :: 16 word)) / 4\<rceil>"
proof -
  have c: "\<lceil>real_of_int (uint (1021 :: 16 word)) / 4\<rceil> = 256"
    unfolding ceiling_quarter by simp
  have "k_trace (snd (usbhid_set_idle (example_env USB_ERR_NORMAL_COMPLETION None) uhid_softc_zero
       1021 0 kernel0)) = [Usbd_req (Req_set_idle None 0 0 0)]"
    by (simp add: usbhid_set_idle_def Let_def emit_def kernel0_def uhid_softc_zero_def)
  then show ?thesis unfolding c by simp
qed

text \<open>
  \<^bold>\<open>C10\<close>, as the code has it: for every 16-bit duration \<open>d\<close>, \<^verbatim>\<open>usbhid_set_idle\<close>
  sends one set-idle request whose duration is the low 8 bits of the ceiling of
  \<open>d / 4\<close>. The ceiling is \<open>(d + 3) div 4\<close> on the integers, with no wrap at 16 bits;
  the request carries it unchanged exactly when \<open>d\<close> is at most 1020.
\<close>

theorem usbhid_set_idle_duration:
  "snd (usbhid_set_idle env sc duration id' k) =
     k\<lparr>k_trace := k_trace k @
        [Usbd_req (Req_set_idle (sc_udev sc) (sc_iface_index sc)
           (word_of_int \<lceil>real_of_int (uint duration) / 4\<rceil>) id')]\<rparr>
   \<and> \<lceil>real_of_int (uint duration) / 4\<rceil> = (uint duration + 3) div 4
   \<and> uint (word_of_int \<lceil>real_of_int (uint duration) / 4\<rceil> :: 8 word)
       = \<lceil>real_of_int (uint duration) / 4\<rceil> mod 256
   \<and> (uint (word_of_int \<lceil>real_of_int (uint duration) / 4\<rceil> :: 8 word)
         = \<lceil>real_of_int (uint duration) / 4\<rceil>
       \<longleftrightarrow> duration \<le> 1020)"
proof -
  let ?c = "(uint duration + 3) div 4"
  have c: "\<lceil>real_of_int (uint duration) / 4\<rceil> = ?c" by (rule ceiling_quarter)
  have t: "snd (usbhid_set_idle env sc duration id' k) =
     k\<lparr>k_trace := k_trace k @
        [Usbd_req (Req_set_idle (sc_udev sc) (sc_iface_index sc) (word_of_int ?c) id')]\<rparr>"
    unfolding usbhid_set_idle_def Let_def emit_def by simp
  show ?thesis
    unfolding c
  proof (intro conjI)
    show "snd (usbhid_set_idle env sc duration id' k) =
     k\<lparr>k_trace := k_trace k @
        [Usbd_req (Req_set_idle (sc_udev sc) (sc_iface_index sc) (word_of_int ?c) id')]\<rparr>"
      by (rule t)
    show "?c = ?c" ..
    show "uint (word_of_int ?c :: 8 word) = ?c mod 256" by (rule uint_byte_of_int)
    show "uint (word_of_int ?c :: 8 word) = ?c \<longleftrightarrow> duration \<le> 1020"
      by (rule byte_unchanged_iff)
  qed
qed

theorem usbhid_set_idle_duration_witness:
  "snd (usbhid_set_idle (example_env USB_ERR_NORMAL_COMPLETION None) uhid_softc_zero 1020 0 kernel0) =
     kernel0\<lparr>k_trace := [Usbd_req (Req_set_idle None 0 255 0)]\<rparr>
   \<and> \<lceil>real_of_int (uint (1020 :: 16 word)) / 4\<rceil> = 255
   \<and> (1020 :: 16 word) \<le> 1020"
proof -
  have c: "\<lceil>real_of_int (uint (1020 :: 16 word)) / 4\<rceil> = 255"
    unfolding ceiling_quarter by simp
  show ?thesis
    using usbhid_set_idle_duration [of "example_env USB_ERR_NORMAL_COMPLETION None" uhid_softc_zero
        1020 0 kernel0]
    unfolding c by (simp add: kernel0_def uhid_softc_zero_def)
qed

subsection \<open>Attach, the life of the device, detach\<close>

lemma callback_durable:
  assumes "uhid_intr_read_callback sc xfer error k = Some k'"
  shows "k_live k' = k_live k" "k_children k' = k_children k" "k_attached k' = k_attached k"
  using assms
  by (auto simp: uhid_intr_read_callback_def usbd_copy_out_def call_intr_def re_submit_def
      emit_def Let_def split: usb_state.splits option.splits if_splits addr.splits)

lemma uhid_step_durable:
  assumes "uhid_step c s = Some s'"
  shows "durable s' = durable s"
proof -
  obtain sc k where s: "s = (sc, k)" by (cases s)
  show ?thesis
  proof (cases c)
    case (Intr_read_callback xfer error)
    then show ?thesis using assms callback_durable [of sc xfer error k]
      by (auto simp: s durable_def split: option.splits)
  qed (use assms in \<open>auto simp: s durable_def usbhid_intr_setup_def usbhid_intr_unsetup_def
        usbhid_intr_start_def usbhid_intr_stop_def usbhid_get_input_report_def
        usbhid_set_output_report_def usbhid_get_report_def usbhid_set_report_def
        usbhid_set_idle_def usbhid_set_protocol_def emit_def Let_def split: if_splits\<close>)
qed

lemma uhid_run_durable:
  assumes "uhid_run cs s = Some s'"
  shows "durable s' = durable s"
  using assms
proof (induction cs arbitrary: s)
  case Nil
  then show ?case by simp
next
  case (Cons c cs)
  then obtain s1 where 1: "uhid_step c s = Some s1" and 2: "uhid_run cs s1 = Some s'"
    by (auto split: option.splits)
  show ?case using Cons.IH [OF 2] uhid_step_durable [OF 1] by simp
qed

lemma durable_fields:
  assumes "durable (sc', k') = durable (sc, k)"
  shows "sc_isize sc' = sc_isize sc" "sc_osize sc' = sc_osize sc" "sc_fsize sc' = sc_fsize sc"
    "sc_repdesc_ptr sc' = sc_repdesc_ptr sc" "sc_repdesc_size sc' = sc_repdesc_size sc"
    "sc_flags sc' = sc_flags sc" "sc_ibuf sc' = sc_ibuf sc" "sc_child sc' = sc_child sc"
    "k_live k' = k_live k" "k_children k' = k_children k" "k_attached k' = k_attached k"
  using assms by (simp_all add: durable_def)

lemma durable_owns:
  assumes "durable (sc', k') = durable (sc, k)"
  shows "owned sc' = owned sc" and "softc_owns sc' k' = softc_owns sc k"
proof -
  note f = durable_fields [OF assms]
  show o: "owned sc' = owned sc" unfolding owned_def f ..
  show "softc_owns sc' k' = softc_owns sc k" unfolding softc_owns_def o f ..
qed

lemma attach_success:
  assumes "uhid_attach env d uaa uhid_softc_zero k = Some ((0, sc), k1)"
  shows "uhid_attach_succeeds env uaa"
    and "softc_owns sc k1"
    and "set (k_live k1) = set (k_live k) \<union> set (owned sc)"
    and "set (owned sc) \<inter> set (k_live k) = {}"
    and "sc_isize sc = min (fst (hid_report_size env (sc_repdesc_ptr sc) (sc_repdesc_size sc) hid_input)) UHID_BSIZE"
    and "sc_osize sc = min (fst (hid_report_size env (sc_repdesc_ptr sc) (sc_repdesc_size sc) hid_output)) UHID_BSIZE"
    and "sc_fsize sc = min (fst (hid_report_size env (sc_repdesc_ptr sc) (sc_repdesc_size sc) hid_feature)) UHID_BSIZE"
    and "if uhid_static_device uaa
         then (\<exists>s. sc_repdesc_ptr sc = Static s) \<and> sc_flags sc AND UHID_FLAG_STATIC_DESC \<noteq> 0
         else (\<exists>a. sc_repdesc_ptr sc = Heap a) \<and> sc_flags sc AND UHID_FLAG_STATIC_DESC = 0"
    and "\<exists>b. sc_ibuf sc = Heap b \<and> length (k_mem k1 b) = unat (sc_isize sc)"
    and "sc_child sc = device_add_child_result env"
    and "filter is_truncation_msg (new_events k k1) = truncation_log env sc"
proof -
  from uhid_attach_outcome [of env d uaa k] obtain sc' k' where
    r: "uhid_attach env d uaa uhid_softc_zero k =
        Some ((if uhid_attach_succeeds env uaa then 0 else ENOMEM, sc'), k')"
    and c: "if uhid_attach_succeeds env uaa
         then softc_owns sc' k'
            \<and> set (k_live k') = set (k_live k) \<union> set (owned sc')
            \<and> set (owned sc') \<inter> set (k_live k) = {}
            \<and> sc_isize sc' = min (fst (hid_report_size env (sc_repdesc_ptr sc') (sc_repdesc_size sc') hid_input)) UHID_BSIZE
            \<and> sc_osize sc' = min (fst (hid_report_size env (sc_repdesc_ptr sc') (sc_repdesc_size sc') hid_output)) UHID_BSIZE
            \<and> sc_fsize sc' = min (fst (hid_report_size env (sc_repdesc_ptr sc') (sc_repdesc_size sc') hid_feature)) UHID_BSIZE
            \<and> (if uhid_static_device uaa
                then (\<exists>s. sc_repdesc_ptr sc' = Static s) \<and> sc_flags sc' AND UHID_FLAG_STATIC_DESC \<noteq> 0
                else (\<exists>a. sc_repdesc_ptr sc' = Heap a) \<and> sc_flags sc' AND UHID_FLAG_STATIC_DESC = 0)
            \<and> (\<exists>b. sc_ibuf sc' = Heap b \<and> length (k_mem k' b) = unat (sc_isize sc'))
            \<and> sc_child sc' = device_add_child_result env
            \<and> filter is_truncation_msg (new_events k k') = truncation_log env sc'
         else set (k_live k') = set (k_live k) \<and> k_children k' = k_children k"
    by (elim exE conjE)
  have ok: "uhid_attach_succeeds env uaa"
    using assms r by (auto simp: ENOMEM_def split: if_splits)
  then show "uhid_attach_succeeds env uaa" .
  have e: "sc' = sc" "k' = k1" using assms r by simp_all
  note c' = c [unfolded e if_P [OF ok]]
  show "softc_owns sc k1" using c' by blast
  show "set (k_live k1) = set (k_live k) \<union> set (owned sc)" using c' by blast
  show "set (owned sc) \<inter> set (k_live k) = {}" using c' by blast
  show "sc_isize sc = min (fst (hid_report_size env (sc_repdesc_ptr sc) (sc_repdesc_size sc) hid_input)) UHID_BSIZE"
    using c' by blast
  show "sc_osize sc = min (fst (hid_report_size env (sc_repdesc_ptr sc) (sc_repdesc_size sc) hid_output)) UHID_BSIZE"
    using c' by blast
  show "sc_fsize sc = min (fst (hid_report_size env (sc_repdesc_ptr sc) (sc_repdesc_size sc) hid_feature)) UHID_BSIZE"
    using c' by blast
  show "if uhid_static_device uaa
         then (\<exists>s. sc_repdesc_ptr sc = Static s) \<and> sc_flags sc AND UHID_FLAG_STATIC_DESC \<noteq> 0
         else (\<exists>a. sc_repdesc_ptr sc = Heap a) \<and> sc_flags sc AND UHID_FLAG_STATIC_DESC = 0"
    using c' by blast
  show "\<exists>b. sc_ibuf sc = Heap b \<and> length (k_mem k1 b) = unat (sc_isize sc)" using c' by blast
  show "sc_child sc = device_add_child_result env" using c' by blast
  show "filter is_truncation_msg (new_events k k1) = truncation_log env sc" using c' by blast
qed

lemma pump_ready_after_setup:
  assumes att: "uhid_attach env d uaa uhid_softc_zero k = Some ((0, sc), k1)"
    and h: "f \<noteq> None" and len: "length (xfer_frame0 xfer) = 1024"
  shows "pump_ready (fst (usbhid_intr_setup env' sc mtx f context k1)) xfer
           (snd (usbhid_intr_setup env' sc mtx f context k1))"
proof -
  note a = attach_success [OF att]
  obtain b where b: "sc_ibuf sc = Heap b" "length (k_mem k1 b) = unat (sc_isize sc)"
    using a(9) by blast
  have "b \<in> set (owned sc)" by (simp add: owned_def b)
  then have live: "b \<in> set (k_live k1)" using a(2) by (auto simp: softc_owns_def)
  have le: "sc_isize sc \<le> UHID_BSIZE" unfolding a(5) by simp
  show ?thesis
    using h len b live le
    by (simp add: pump_ready_def usbhid_intr_setup_def emit_def Let_def UHID_BSIZE_def)
qed

lemma filter_is_free_detach:
  "filter is_free
     ((if a then [Bus_generic_detach] else [])
      @ (case c of None \<Rightarrow> [] | Some x \<Rightarrow> [Device_delete_child x])
      @ (if b then [Free p] else []) @ [Free q])
   = (if b then [Free p] else []) @ [Free q]"
  by (simp add: is_free_def split: option.splits)

lemma uhid_attach_succeeds_sizes:
  "uhid_attach_succeeds (env\<lparr>hid_report_size := f\<rparr>) uaa = uhid_attach_succeeds env uaa"
  by (simp add: uhid_attach_succeeds_def)

lemma example_attach:
  "uhid_attach (example_env USB_ERR_NORMAL_COMPLETION (Some 1)) None (example_uaa 0x046d 0xc21d)
     uhid_softc_zero kernel0 = Some ((0, example_attached_sc), example_attached_kernel)"
  by (simp add: uhid_attach_def uhid_attach_quirks_def usbd_req_get_hid_desc_def
      uhid_attach_finish_def uhid_attach_sizes_def uhid_attach_hw_def
      malloc_def emit_def device_add_child_def
      strlcpy_def example_env_def example_uaa_def uhid_softc_zero_def kernel0_def
      hid_device_info_zero_def USB_VENDOR_WACOM_def UICLASS_VENDOR_def UHID_BSIZE_def BUS_USB_def
      example_attached_sc_def example_attached_kernel_def Let_def)

lemma example_run:
  "uhid_run [Intr_start, Intr_stop] (example_attached_sc, example_attached_kernel) =
     Some (example_attached_sc,
           example_attached_kernel\<lparr>k_trace := k_trace example_attached_kernel
              @ [Usbd_transfer_start, Usbd_transfer_stop]\<rparr>)"
  by (simp add: usbhid_intr_start_def usbhid_intr_stop_def emit_def)

text \<open>
  \<^bold>\<open>C6.\<close> After a successful attach and whatever the device then does, detach
  passes the report descriptor to \<^verbatim>\<open>free\<close> exactly once when attach retrieved it from
  the device (flag \<open>UHID_FLAG_STATIC_DESC\<close> clear, pointer to an allocated block), and
  never when attach bound one of the static arrays (flag set). The flag is set exactly
  for the static devices, and the calls of \<^verbatim>\<open>free\<close> that detach makes are the
  descriptor, if dynamic, and then the input buffer.
\<close>

theorem descriptor_freed_once_or_never:
  assumes att: "uhid_attach env d uaa uhid_softc_zero k = Some ((0, sc), k1)"
    and run: "uhid_run cs (sc, k1) = Some (sc', k2)"
  shows "\<exists>k3. uhid_detach sc' k2 = Some (0, k3)
      \<and> filter is_free (new_events k2 k3) =
          (if sc_flags sc' AND UHID_FLAG_STATIC_DESC = 0
           then [Free (sc_repdesc_ptr sc'), Free (sc_ibuf sc')]
           else [Free (sc_ibuf sc')])
      \<and> count_list (new_events k2 k3) (Free (sc_repdesc_ptr sc')) =
          (if sc_flags sc' AND UHID_FLAG_STATIC_DESC = 0 then 1 else 0)
      \<and> (sc_flags sc' AND UHID_FLAG_STATIC_DESC = 0 \<longleftrightarrow> \<not> uhid_static_device uaa)
      \<and> (if uhid_static_device uaa
          then \<exists>s. sc_repdesc_ptr sc' = Static s
          else \<exists>a. sc_repdesc_ptr sc' = Heap a \<and> a \<in> set (k_live k2) \<and> a \<notin> set (k_live k3))"
proof -
  note d = uhid_run_durable [OF run]
  note f = durable_fields [OF d]
  note a = attach_success [OF att]
  have own: "softc_owns sc' k2" using a(2) durable_owns(2) [OF d] by simp
  obtain b where b: "sc_ibuf sc' = Heap b" using a(9) f(7) by auto
  from uhid_detach_owns [OF own] obtain k3 where
    k3: "uhid_detach sc' k2 = Some (0, k3)"
    and l3: "set (k_live k3) = set (k_live k2) - set (owned sc')"
    and t3: "k_trace k3 = k_trace k2
         @ (if k_attached k2 then [Bus_generic_detach] else [])
         @ (case sc_child sc' of None \<Rightarrow> [] | Some c \<Rightarrow> [Device_delete_child c])
         @ (if sc_repdesc_ptr sc' \<noteq> NULL \<and> sc_flags sc' AND UHID_FLAG_STATIC_DESC = 0
            then [Free (sc_repdesc_ptr sc')] else [])
         @ [Free (sc_ibuf sc')]"
    by (elim exE conjE)
  have ne: "new_events k2 k3 =
           (if k_attached k2 then [Bus_generic_detach] else [])
         @ (case sc_child sc' of None \<Rightarrow> [] | Some c \<Rightarrow> [Device_delete_child c])
         @ (if sc_repdesc_ptr sc' \<noteq> NULL \<and> sc_flags sc' AND UHID_FLAG_STATIC_DESC = 0
            then [Free (sc_repdesc_ptr sc')] else [])
         @ [Free (sc_ibuf sc')]"
    by (simp add: new_events_def t3)
  show ?thesis
  proof (cases "uhid_static_device uaa")
    case True
    then obtain s where s: "sc_repdesc_ptr sc' = Static s"
      and fl: "sc_flags sc' AND UHID_FLAG_STATIC_DESC \<noteq> 0"
      using a(8) f(4) f(6) by auto
    have "filter is_free (new_events k2 k3) = [Free (sc_ibuf sc')]"
      unfolding ne filter_is_free_detach using fl by simp
    moreover have "count_list (new_events k2 k3) (Free (sc_repdesc_ptr sc')) = 0"
      unfolding ne using fl by (simp add: s b split: option.splits)
    ultimately show ?thesis using k3 True s fl by simp
  next
    case False
    then obtain a' where p: "sc_repdesc_ptr sc' = Heap a'"
      and fl: "sc_flags sc' AND UHID_FLAG_STATIC_DESC = 0"
      using a(8) f(4) f(6) by auto
    have o: "owned sc' = [a', b]" unfolding owned_def using p fl b by simp
    have "distinct (owned sc')" "set (owned sc') \<subseteq> set (k_live k2)"
      using own by (simp_all add: softc_owns_def)
    then have ab: "a' \<noteq> b" and al: "a' \<in> set (k_live k2)" by (simp_all add: o)
    have an: "a' \<notin> set (k_live k3)" by (simp add: l3 o)
    have "filter is_free (new_events k2 k3) = [Free (sc_repdesc_ptr sc'), Free (sc_ibuf sc')]"
      unfolding ne filter_is_free_detach using fl p by simp
    moreover have "count_list (new_events k2 k3) (Free (sc_repdesc_ptr sc')) = 1"
      unfolding ne using fl ab by (simp add: p b split: option.splits)
    ultimately show ?thesis using k3 False p fl al an by simp
  qed
qed

theorem descriptor_freed_once_or_never_witness:
  "uhid_attach (example_env USB_ERR_NORMAL_COMPLETION (Some 1)) None (example_uaa 0x046d 0xc21d)
     uhid_softc_zero kernel0 = Some ((0, example_attached_sc), example_attached_kernel)
   \<and> (\<exists>k2 k3. uhid_run [Intr_start, Intr_stop] (example_attached_sc, example_attached_kernel)
                = Some (example_attached_sc, k2)
        \<and> uhid_detach example_attached_sc k2 = Some (0, k3)
        \<and> filter is_free (new_events k2 k3) = [Free (Heap 0), Free (Heap 1)]
        \<and> count_list (new_events k2 k3) (Free (Heap 0)) = 1)"
proof -
  from descriptor_freed_once_or_never [OF example_attach example_run]
  obtain k3 where
    "uhid_detach example_attached_sc (example_attached_kernel\<lparr>k_trace := k_trace example_attached_kernel
              @ [Usbd_transfer_start, Usbd_transfer_stop]\<rparr>) = Some (0, k3)"
    "filter is_free (new_events (example_attached_kernel\<lparr>k_trace := k_trace example_attached_kernel
              @ [Usbd_transfer_start, Usbd_transfer_stop]\<rparr>) k3) = [Free (Heap 0), Free (Heap 1)]"
    "count_list (new_events (example_attached_kernel\<lparr>k_trace := k_trace example_attached_kernel
              @ [Usbd_transfer_start, Usbd_transfer_stop]\<rparr>) k3) (Free (Heap 0)) = 1"
    by (elim exE conjE) (simp add: example_attached_sc_def)
  then show ?thesis using example_attach example_run by blast
qed

text \<open>
  \<^bold>\<open>C7.\<close> On every softc that holds its blocks properly (\<open>softc_owns\<close>: whatever of
  descriptor, input buffer and child is there or not), \<^verbatim>\<open>uhid_detach\<close> returns 0
  without a crash, releases exactly the blocks the softc holds, deletes the child
  exactly when there is one, and makes no other call than those listed;
  \<^verbatim>\<open>free\<close> is called with the null pointer when there is no input buffer, which
  releases nothing. And \<^verbatim>\<open>uhid_attach\<close> itself never crashes on the zeroed softc: it
  returns 0 or \<open>ENOMEM\<close>, and when it fails, at either of its two exits, the
  allocator and the children are as before the call.
\<close>

theorem uhid_detach_partial:
  assumes "softc_owns sc k"
  shows "(\<exists>k'. uhid_detach sc k = Some (0, k')
      \<and> set (k_live k') = set (k_live k) - set (owned sc)
      \<and> k_children k' = (case sc_child sc of None \<Rightarrow> k_children k | Some c \<Rightarrow> removeAll c (k_children k))
      \<and> new_events k k' =
           (if k_attached k then [Bus_generic_detach] else [])
         @ (case sc_child sc of None \<Rightarrow> [] | Some c \<Rightarrow> [Device_delete_child c])
         @ (if sc_repdesc_ptr sc \<noteq> NULL \<and> sc_flags sc AND UHID_FLAG_STATIC_DESC = 0
            then [Free (sc_repdesc_ptr sc)] else [])
         @ [Free (sc_ibuf sc)])
    \<and> (\<exists>r sc1 k1. uhid_attach env d uaa uhid_softc_zero k0 = Some ((r, sc1), k1)
          \<and> (r = 0 \<or> r = ENOMEM)
          \<and> (r \<noteq> 0 \<longrightarrow> set (k_live k1) = set (k_live k0) \<and> k_children k1 = k_children k0))"
proof
  from uhid_detach_owns [OF assms] obtain k' where
    "uhid_detach sc k = Some (0, k')"
    "set (k_live k') = set (k_live k) - set (owned sc)"
    "k_children k' = (case sc_child sc of None \<Rightarrow> k_children k | Some c \<Rightarrow> removeAll c (k_children k))"
    "k_trace k' = k_trace k
         @ (if k_attached k then [Bus_generic_detach] else [])
         @ (case sc_child sc of None \<Rightarrow> [] | Some c \<Rightarrow> [Device_delete_child c])
         @ (if sc_repdesc_ptr sc \<noteq> NULL \<and> sc_flags sc AND UHID_FLAG_STATIC_DESC = 0
            then [Free (sc_repdesc_ptr sc)] else [])
         @ [Free (sc_ibuf sc)]"
    by (elim exE conjE)
  then show "\<exists>k'. uhid_detach sc k = Some (0, k')
      \<and> set (k_live k') = set (k_live k) - set (owned sc)
      \<and> k_children k' = (case sc_child sc of None \<Rightarrow> k_children k | Some c \<Rightarrow> removeAll c (k_children k))
      \<and> new_events k k' =
           (if k_attached k then [Bus_generic_detach] else [])
         @ (case sc_child sc of None \<Rightarrow> [] | Some c \<Rightarrow> [Device_delete_child c])
         @ (if sc_repdesc_ptr sc \<noteq> NULL \<and> sc_flags sc AND UHID_FLAG_STATIC_DESC = 0
            then [Free (sc_repdesc_ptr sc)] else [])
         @ [Free (sc_ibuf sc)]"
    by (simp add: new_events_def)
next
  from uhid_attach_outcome [of env d uaa k0] obtain sc1 k1 where
    r: "uhid_attach env d uaa uhid_softc_zero k0 =
        Some ((if uhid_attach_succeeds env uaa then 0 else ENOMEM, sc1), k1)"
    and c: "\<not> uhid_attach_succeeds env uaa \<Longrightarrow>
        set (k_live k1) = set (k_live k0) \<and> k_children k1 = k_children k0"
    by (elim exE conjE) simp
  show "\<exists>r sc1 k1. uhid_attach env d uaa uhid_softc_zero k0 = Some ((r, sc1), k1)
          \<and> (r = 0 \<or> r = ENOMEM)
          \<and> (r \<noteq> 0 \<longrightarrow> set (k_live k1) = set (k_live k0) \<and> k_children k1 = k_children k0)"
    using r c by (cases "uhid_attach_succeeds env uaa") simp_all
qed

theorem uhid_detach_partial_witness:
  "softc_owns example_partial_sc example_partial_kernel
   \<and> (\<exists>k'. uhid_detach example_partial_sc example_partial_kernel = Some (0, k')
        \<and> set (k_live k') = {}
        \<and> new_events example_partial_kernel k' = [Free (Heap 0), Free NULL])
   \<and> (\<exists>sc1 k1. uhid_attach (example_env USB_ERR_NORMAL_COMPLETION None) None (example_uaa 0x046d 0xc21d)
          uhid_softc_zero kernel0 = Some ((ENOMEM, sc1), k1)
        \<and> set (k_live k1) = {} \<and> k_children k1 = [])"
proof -
  have own: "softc_owns example_partial_sc example_partial_kernel"
    by (simp add: softc_owns_def owned_def example_partial_sc_def example_partial_kernel_def
        uhid_softc_zero_def kernel0_def)
  have ns: "\<not> uhid_attach_succeeds (example_env USB_ERR_NORMAL_COMPLETION None) (example_uaa 0x046d 0xc21d)"
    by (simp add: uhid_attach_succeeds_def example_env_def)
  from uhid_attach_outcome [of "example_env USB_ERR_NORMAL_COMPLETION None" None "example_uaa 0x046d 0xc21d" kernel0]
  have r0: "\<not> (\<exists>sc1 k1. uhid_attach (example_env USB_ERR_NORMAL_COMPLETION None) None (example_uaa 0x046d 0xc21d)
          uhid_softc_zero kernel0 = Some ((0, sc1), k1))"
    using ns by (auto simp: ENOMEM_def)
  note t = uhid_detach_partial [OF own, of "example_env USB_ERR_NORMAL_COMPLETION None" None
      "example_uaa 0x046d 0xc21d" kernel0]
  from t obtain k' where k': "uhid_detach example_partial_sc example_partial_kernel = Some (0, k')"
    "set (k_live k') = set (k_live example_partial_kernel) - set (owned example_partial_sc)"
    "new_events example_partial_kernel k' =
           (if k_attached example_partial_kernel then [Bus_generic_detach] else [])
         @ (case sc_child example_partial_sc of None \<Rightarrow> [] | Some c \<Rightarrow> [Device_delete_child c])
         @ (if sc_repdesc_ptr example_partial_sc \<noteq> NULL
               \<and> sc_flags example_partial_sc AND UHID_FLAG_STATIC_DESC = 0
            then [Free (sc_repdesc_ptr example_partial_sc)] else [])
         @ [Free (sc_ibuf example_partial_sc)]"
    by (elim exE conjE)
  have 1: "set (k_live k') = {}"
    using k'(2)
    by (simp add: owned_def example_partial_sc_def example_partial_kernel_def
        uhid_softc_zero_def kernel0_def)
  have 2: "new_events example_partial_kernel k' = [Free (Heap 0), Free NULL]"
    using k'(3)
    by (simp add: example_partial_sc_def example_partial_kernel_def
        uhid_softc_zero_def kernel0_def)
  from t obtain r sc1 k1 where
    a: "uhid_attach (example_env USB_ERR_NORMAL_COMPLETION None) None (example_uaa 0x046d 0xc21d)
          uhid_softc_zero kernel0 = Some ((r, sc1), k1)"
    and r: "r = 0 \<or> r = ENOMEM"
    and c: "r \<noteq> 0 \<longrightarrow> set (k_live k1) = set (k_live kernel0) \<and> k_children k1 = k_children kernel0"
    by (elim exE conjE)
  have rn: "r \<noteq> 0" using r0 a by auto
  then have "r = ENOMEM" "set (k_live k1) = {}" "k_children k1 = []"
    using r c by (simp_all add: kernel0_def)
  then show ?thesis using own k'(1) 1 2 a by auto
qed

text \<open>
  \<^bold>\<open>C9.\<close> After a successful attach the input, output and feature sizes are the
  values of \<^verbatim>\<open>hid_report_size\<close> limited to \<open>UHID_BSIZE\<close>, which is 1024; attach
  writes one debug message (\<^verbatim>\<open>DPRINTF\<close>) for each size it had to limit and for no
  other; attach succeeds whatever sizes \<^verbatim>\<open>hid_report_size\<close> reports; and no entry
  point changes the sizes afterwards.
\<close>

theorem report_sizes_bounded:
  assumes att: "uhid_attach env d uaa uhid_softc_zero k = Some ((0, sc), k1)"
    and run: "uhid_run cs (sc, k1) = Some (sc', k2)"
  shows "sc_isize sc' \<le> UHID_BSIZE \<and> sc_osize sc' \<le> UHID_BSIZE \<and> sc_fsize sc' \<le> UHID_BSIZE
     \<and> unat UHID_BSIZE = 1024
     \<and> sc_isize sc' = min (fst (hid_report_size env (sc_repdesc_ptr sc) (sc_repdesc_size sc) hid_input)) UHID_BSIZE
     \<and> sc_osize sc' = min (fst (hid_report_size env (sc_repdesc_ptr sc) (sc_repdesc_size sc) hid_output)) UHID_BSIZE
     \<and> sc_fsize sc' = min (fst (hid_report_size env (sc_repdesc_ptr sc) (sc_repdesc_size sc) hid_feature)) UHID_BSIZE
     \<and> filter is_truncation_msg (new_events k k1) = truncation_log env sc
     \<and> (\<exists>sc2 k3. uhid_attach (env\<lparr>hid_report_size := f\<rparr>) d uaa uhid_softc_zero k = Some ((0, sc2), k3))"
proof -
  note fl = durable_fields [OF uhid_run_durable [OF run]]
  note a = attach_success [OF att]
  have ok: "uhid_attach_succeeds (env\<lparr>hid_report_size := f\<rparr>) uaa"
    using a(1) by (simp only: uhid_attach_succeeds_sizes)
  from uhid_attach_outcome [of "env\<lparr>hid_report_size := f\<rparr>" d uaa k] obtain sc2 k3 where
    "uhid_attach (env\<lparr>hid_report_size := f\<rparr>) d uaa uhid_softc_zero k =
        Some ((if uhid_attach_succeeds (env\<lparr>hid_report_size := f\<rparr>) uaa then 0 else ENOMEM, sc2), k3)"
    by (elim exE conjE)
  then have any: "\<exists>sc2 k3. uhid_attach (env\<lparr>hid_report_size := f\<rparr>) d uaa uhid_softc_zero k = Some ((0, sc2), k3)"
    using ok by simp
  have "sc_isize sc' \<le> UHID_BSIZE" "sc_osize sc' \<le> UHID_BSIZE" "sc_fsize sc' \<le> UHID_BSIZE"
    unfolding fl a(5) a(6) a(7) by simp_all
  moreover have "unat UHID_BSIZE = 1024" by (simp add: UHID_BSIZE_def)
  ultimately show ?thesis
    using any a(11) unfolding fl using a(5) a(6) a(7) by simp
qed

theorem report_sizes_bounded_witness:
  "uhid_attach (example_env USB_ERR_NORMAL_COMPLETION (Some 1)) None (example_uaa 0x046d 0xc21d)
     uhid_softc_zero kernel0 = Some ((0, example_attached_sc), example_attached_kernel)
   \<and> fst (hid_report_size (example_env USB_ERR_NORMAL_COMPLETION (Some 1)) (Heap 0) 52 hid_output) = 2000
   \<and> sc_osize example_attached_sc = 1024
   \<and> filter is_truncation_msg (new_events kernel0 example_attached_kernel) =
        [DPRINTF ''output size is too large, %d bytes (truncating)'']"
  using report_sizes_bounded [OF example_attach example_run, of "\<lambda>p n kind. (0, 0)"] example_attach
  by (simp add: truncation_log_def example_env_def example_attached_sc_def UHID_BSIZE_def)

end
